theory Spec2Isabelle
  imports
    Complex_Main
    "HOL-Library.List_Lexorder"
    "HOL-Library.Char_ord"
    "HOL-Library.Product_Lexorder"
    "HOL-Library.Multiset"
begin

section \<open>Flight tables\<close>

text \<open>
  A pandas DataFrame of flight listings is modelled row by row. The cells of one row are
  the fields of the record \<open>flight\<close>; which of the fields are columns of the frame is
  recorded in the table (\<open>columns\<close>, the frame's \<open>df.columns\<close>, in order). A name in
  \<open>columns\<close> that is no field of \<open>flight\<close> is a column whose cells are carried along
  unread. A field whose name is not in \<open>columns\<close> is not part of the frame; the code
  never reads it without testing \<open>'name' in df.columns\<close> first, or else raises
  \<open>KeyError\<close>, which the model returns as a value.

  Prices are float64 in the source; as cells, and in the medians, quantiles and
  comparisons of the cleaner and of the analysis passes, they are idealised as exact
  reals, and \<open>None\<close> is NaN. The rounded figures of the summary are not: they are kept
  as the float64 expressions the code evaluates (\<open>float64\<close> below). The cells of \<open>flight_date\<close>, \<open>origin\<close> and \<open>destination\<close> are never null
  (they are the required fields of a flight record). A parsed \<open>flight_date\<close> is a
  calendar date (the collector writes dates as \<open>%Y-%m-%d\<close>, without a time of day).
\<close>

datatype date = Date (date_year: int) (date_month: nat) (date_day: nat)

datatype date_cell = DateText string | Timestamp date

datatype category = Budget | Economy | Premium | Luxury

datatype error = KeyError | IndexError | ValueError

record flight =
  flight_date :: date_cell
  flight_time :: "string option"
  origin :: string
  destination :: string
  price :: "real option"
  airline :: "string option"
  duration :: "int option"
  is_domestic :: bool
  day_of_week :: nat
  month :: nat
  is_weekend :: nat
  week :: nat
  year :: int
  price_category :: "category option"

text \<open>
  \<open>date_parsed\<close> is the dtype of the \<open>flight_date\<close> column: true when it is
  \<open>datetime64\<close> (what \<open>pd.api.types.is_datetime64_any_dtype\<close> tests), false when it is
  \<open>object\<close>. It is kept in the table because a frame keeps its dtypes when it has no
  rows.
\<close>

record table =
  columns :: "string list"
  date_parsed :: bool
  rows :: "flight list"

definition has_column :: "table \<Rightarrow> string \<Rightarrow> bool" where
  "has_column df c \<longleftrightarrow> c \<in> set (columns df)"

text \<open>\<open>df[name] = values\<close>: a new column is appended, an existing one keeps its place.\<close>

definition add_column :: "string \<Rightarrow> string list \<Rightarrow> string list" where
  "add_column c cs = (if c \<in> set cs then cs else cs @ [c])"

subsection \<open>Series statistics\<close>

fun dropna :: "'a option list \<Rightarrow> 'a list" where
  "dropna [] = []"
| "dropna (None # xs) = dropna xs"
| "dropna (Some x # xs) = x # dropna xs"

text \<open>\<open>Series.median()\<close> skips NaN; it is NaN when no value is left.\<close>

definition median :: "real list \<Rightarrow> real option" where
  "median xs =
     (let s = sort xs; n = length s in
      if n = 0 then None
      else if odd n then Some (s ! (n div 2))
      else Some ((s ! (n div 2 - 1) + s ! (n div 2)) / 2))"

text \<open>
  \<open>Series.quantile(q)\<close> with the default linear interpolation: the position
  \<open>q * (n - 1)\<close> in the sorted values, interpolated between its two neighbours.
\<close>

definition quantile :: "real \<Rightarrow> real list \<Rightarrow> real option" where
  "quantile q xs =
     (let s = sort xs; n = length s in
      if n = 0 then None
      else
        let pos = q * real (n - 1);
            lo = nat \<lfloor>pos\<rfloor>;
            hi = min (lo + 1) (n - 1);
            frac = pos - real lo
        in Some (s ! lo + (s ! hi - s ! lo) * frac))"

definition mean :: "real list \<Rightarrow> real option" where
  "mean xs = (if xs = [] then None else Some (sum_list xs / real (length xs)))"

definition prices :: "flight list \<Rightarrow> real list" where
  "prices rs = dropna (map price rs)"

section \<open>The cleaner: \<open>DataProcessor.clean_data\<close>\<close>

subsection \<open>Price imputation (lines 46-51)\<close>

definition same_route :: "flight \<Rightarrow> flight \<Rightarrow> bool" where
  "same_route r x \<longleftrightarrow> origin x = origin r \<and> destination x = destination r"

text \<open>\<open>df.groupby(['origin', 'destination'])['price'].transform('median')\<close>, at row \<open>r\<close>.\<close>

definition route_median :: "flight list \<Rightarrow> flight \<Rightarrow> real option" where
  "route_median rs r = median (prices (filter (same_route r) rs))"

text \<open>\<open>df['price'].fillna(v)\<close> for a value \<open>v\<close> that may depend on the row.\<close>

definition fillna :: "(flight \<Rightarrow> real option) \<Rightarrow> flight list \<Rightarrow> flight list" where
  "fillna v rs = map (\<lambda>r. case price r of None \<Rightarrow> r\<lparr>price := v r\<rparr> | Some p \<Rightarrow> r) rs"

definition impute_prices :: "flight list \<Rightarrow> flight list" where
  "impute_prices rs =
     (let filled = fillna (route_median rs) rs;
          overall = median (prices filled)
      in fillna (\<lambda>r. overall) filled)"

subsection \<open>Date normalisation (lines 54-58)\<close>

text \<open>
  \<open>pd.to_datetime\<close> is a library function; its parser of free-form date strings is a
  parameter \<open>parse\<close> of the model (\<open>None\<close>: the string is no date and the call
  raises). The conversion is on the whole column: one unparseable cell raises, the
  \<open>except\<close> clause logs a warning, and the column stays as it was.
\<close>

definition parse_cell :: "(string \<Rightarrow> date option) \<Rightarrow> date_cell \<Rightarrow> date option" where
  "parse_cell parse c = (case c of DateText s \<Rightarrow> parse s | Timestamp d \<Rightarrow> Some d)"

definition to_datetime :: "(string \<Rightarrow> date option) \<Rightarrow> table \<Rightarrow> table" where
  "to_datetime parse df =
     (if date_parsed df then df
      else if \<forall>r \<in> set (rows df). parse_cell parse (flight_date r) \<noteq> None
      then df\<lparr>date_parsed := True,
              rows := map (\<lambda>r. r\<lparr>flight_date := Timestamp (the (parse_cell parse (flight_date r)))\<rparr>)
                          (rows df)\<rparr>
      else df)"

subsection \<open>Deduplication (lines 61-63)\<close>

type_synonym identity = "date_cell \<times> string option \<times> string \<times> string \<times> string option"

definition identity_key :: "flight \<Rightarrow> identity" where
  "identity_key r = (flight_date r, flight_time r, origin r, destination r, airline r)"

definition identity_columns :: "string list" where
  "identity_columns = [''flight_date'', ''flight_time'', ''origin'', ''destination'', ''airline'']"

text \<open>\<open>drop_duplicates(subset=..., keep='first')\<close>; \<open>seen\<close> are the keys met so far.\<close>

fun drop_duplicates :: "('r \<Rightarrow> 'k) \<Rightarrow> 'k list \<Rightarrow> 'r list \<Rightarrow> 'r list" where
  "drop_duplicates key seen [] = []"
| "drop_duplicates key seen (r # rs) =
     (if key r \<in> set seen then drop_duplicates key seen rs
      else r # drop_duplicates key (key r # seen) rs)"

subsection \<open>Outlier removal (lines 66-77)\<close>

text \<open>
  The fence is computed over the current price column. A comparison with NaN is false,
  so a row with a null price, and every row when the quartiles are NaN, is dropped.
\<close>

definition in_fence :: "real list \<Rightarrow> flight \<Rightarrow> bool" where
  "in_fence ps r =
     (case (quantile (1/4) ps, quantile (3/4) ps, price r) of
        (Some Q1, Some Q3, Some p) \<Rightarrow>
          (let IQR = Q3 - Q1;
               lower_bound = Q1 - 1.5 * IQR;
               upper_bound = Q3 + 1.5 * IQR
           in lower_bound \<le> p \<and> p \<le> upper_bound)
      | _ \<Rightarrow> False)"

definition remove_outliers :: "flight list \<Rightarrow> flight list" where
  "remove_outliers rs = filter (in_fence (prices rs)) rs"

subsection \<open>Calendar derivation (lines 80-83)\<close>

definition is_leap :: "int \<Rightarrow> bool" where
  "is_leap y \<longleftrightarrow> y mod 4 = 0 \<and> (y mod 100 \<noteq> 0 \<or> y mod 400 = 0)"

definition days_in_month :: "int \<Rightarrow> nat \<Rightarrow> int" where
  "days_in_month y m =
     (if m = 2 then (if is_leap y then 29 else 28)
      else if m \<in> {4, 6, 9, 11} then 30 else 31)"

definition days_before_year :: "int \<Rightarrow> int" where
  "days_before_year y = (y - 1) * 365 + (y - 1) div 4 - (y - 1) div 100 + (y - 1) div 400"

definition days_before_month :: "int \<Rightarrow> nat \<Rightarrow> int" where
  "days_before_month y m = sum_list (map (days_in_month y) [1..<m])"

text \<open>The proleptic Gregorian ordinal: day 1 is Monday, 1 January of year 1.\<close>

definition ordinal :: "date \<Rightarrow> int" where
  "ordinal d = days_before_year (date_year d) + days_before_month (date_year d) (date_month d)
               + int (date_day d)"

text \<open>\<open>dt.dayofweek\<close>: Monday is 0, Sunday is 6.\<close>

definition dayofweek :: "date \<Rightarrow> nat" where
  "dayofweek d = nat ((ordinal d + 6) mod 7)"

text \<open>
  The date of a cell of a \<open>datetime64\<close> column. The \<open>.dt\<close> accessor is read only
  after the test of the dtype, on a column of timestamps; the value on a text cell is
  never used.
\<close>

definition cell_date :: "date_cell \<Rightarrow> date" where
  "cell_date c = (case c of Timestamp d \<Rightarrow> d | DateText s \<Rightarrow> Date 1 1 1)"

definition derive_calendar :: "flight \<Rightarrow> flight" where
  "derive_calendar r =
     (let d = cell_date (flight_date r); dow = dayofweek d in
      r\<lparr>day_of_week := dow, month := date_month d,
        is_weekend := (if dow \<in> {5, 6} then 1 else 0)\<rparr>)"

subsection \<open>The whole cleaner\<close>

definition clean_impute :: "table \<Rightarrow> error + table" where
  "clean_impute df =
     (if has_column df ''price'' \<and> (\<exists>r \<in> set (rows df). price r = None)
      then (if has_column df ''origin'' \<and> has_column df ''destination''
            then Inr (df\<lparr>rows := impute_prices (rows df)\<rparr>)
            else Inl KeyError)
      else Inr df)"

definition clean_dates :: "(string \<Rightarrow> date option) \<Rightarrow> table \<Rightarrow> table" where
  "clean_dates parse df = (if has_column df ''flight_date'' then to_datetime parse df else df)"

definition clean_duplicates :: "table \<Rightarrow> error + table" where
  "clean_duplicates df =
     (if length (columns df) > 3
      then (if \<forall>c \<in> set identity_columns. has_column df c
            then Inr (df\<lparr>rows := drop_duplicates identity_key [] (rows df)\<rparr>)
            else Inl KeyError)
      else Inr df)"

definition clean_outliers :: "table \<Rightarrow> table" where
  "clean_outliers df =
     (if has_column df ''price'' then df\<lparr>rows := remove_outliers (rows df)\<rparr> else df)"

definition clean_calendar :: "table \<Rightarrow> table" where
  "clean_calendar df =
     (if has_column df ''flight_date'' \<and> date_parsed df
      then df\<lparr>columns := add_column ''is_weekend''
                            (add_column ''month'' (add_column ''day_of_week'' (columns df))),
              rows := map derive_calendar (rows df)\<rparr>
      else df)"

text \<open>The body of \<open>clean_data\<close> after the guard, on the copy \<open>df\<close> of the raw table.\<close>

definition clean_table :: "(string \<Rightarrow> date option) \<Rightarrow> table \<Rightarrow> error + table" where
  "clean_table parse df =
     (case clean_impute df of
        Inl e \<Rightarrow> Inl e
      | Inr df1 \<Rightarrow>
          (case clean_duplicates (clean_dates parse df1) of
             Inl e \<Rightarrow> Inl e
           | Inr df3 \<Rightarrow> Inr (clean_calendar (clean_outliers df3))))"

section \<open>Configuration (\<open>config.py\<close>)\<close>

definition AUSTRALIAN_CITIES :: "(string \<times> string) list" where
  "AUSTRALIAN_CITIES =
     [(''Sydney'', ''SYD''), (''Melbourne'', ''MEL''), (''Brisbane'', ''BNE''),
      (''Perth'', ''PER''), (''Adelaide'', ''ADL''), (''Darwin'', ''DRW''),
      (''Gold Coast'', ''OOL''), (''Cairns'', ''CNS''), (''Canberra'', ''CBR''),
      (''Hobart'', ''HBA'')]"


text \<open>\<open>code in config.AUSTRALIAN_CITIES.values()\<close>\<close>

definition domestic_airport :: "string \<Rightarrow> bool" where
  "domestic_airport code \<longleftrightarrow> code \<in> set (map snd AUSTRALIAN_CITIES)"

section \<open>Frame operations shared by the analysis passes\<close>

text \<open>
  \<open>groupby(key)\<close> with the default \<open>sort=True\<close>: one group per distinct key, in
  ascending key order, each with its rows in frame order.
\<close>

definition groupby :: "('r \<Rightarrow> 'k::linorder) \<Rightarrow> 'r list \<Rightarrow> ('k \<times> 'r list) list" where
  "groupby key rs = map (\<lambda>k. (k, filter (\<lambda>r. key r = k) rs)) (sort (remdups (map key rs)))"

text \<open>
  \<open>sort_values(by, ascending=False)\<close>. pandas reverses the values, sorts them in
  ascending order and reverses the result, so that with a stable sort equal keys keep
  their frame order. numpy's default sort is stable on short arrays only; on the others
  the order of equal keys is left to the library, and the model takes the stable one.
\<close>

definition sort_desc :: "('a \<Rightarrow> 'b::linorder) \<Rightarrow> 'a list \<Rightarrow> 'a list" where
  "sort_desc f xs = rev (sort_key f (rev xs))"

text \<open>\<open>head(n)\<close>: the first \<open>n\<close> rows, or all but the last \<open>-n\<close> when \<open>n\<close> is negative.\<close>

definition head :: "int \<Rightarrow> 'a list \<Rightarrow> 'a list" where
  "head n xs = (if 0 \<le> n then take (nat n) xs else take (length xs - nat (- n)) xs)"

text \<open>
  \<open>Series.value_counts()\<close> of a column without nulls: the distinct values in order of
  first appearance with their counts, then sorted by descending count.
\<close>

definition unique :: "'a list \<Rightarrow> 'a list" where
  "unique xs = rev (remdups (rev xs))"


text \<open>
  float64 division does not raise: a zero divisor gives an infinity or NaN. Only the
  quotients the code computes without a guard are modelled with these values.
\<close>

datatype float = Fin real | PosInf | NegInf | NaN

definition fdiv :: "real option \<Rightarrow> real option \<Rightarrow> float" where
  "fdiv a b =
     (case (a, b) of
        (Some x, Some y) \<Rightarrow>
          (if y \<noteq> 0 then Fin (x / y)
           else if 0 < x then PosInf else if x < 0 then NegInf else NaN)
      | _ \<Rightarrow> NaN)"

text \<open>\<open>x > c\<close> on a float: false on NaN.\<close>

definition fgreater :: "float \<Rightarrow> real \<Rightarrow> bool" where
  "fgreater x c = (case x of Fin v \<Rightarrow> c < v | PosInf \<Rightarrow> True | _ \<Rightarrow> False)"

text \<open>
  The figures of the summary are float64 values: a mean or a median of a column, a
  count, a quotient, a difference, a product, and \<open>round(x, n)\<close> of one of these. The
  model keeps them as the expressions the code evaluates. Their values are those of
  IEEE arithmetic in pandas and numpy (the order of a summation, the rounding of every
  operation), which the source does not fix and the model does not compute.
\<close>

datatype float64 =
    Num64 real
  | Mean64 "real list"
  | Median64 "real list"
  | Div64 float64 float64
  | Sub64 float64 float64
  | Mul64 float64 float64
  | Round64 float64 nat




definition month_names :: "string list" where
  "month_names = [''January'', ''February'', ''March'', ''April'', ''May'', ''June'', ''July'',
                  ''August'', ''September'', ''October'', ''November'', ''December'']"

text \<open>\<open>datetime(2000, m, 1).strftime('%B')\<close>; the constructor raises \<open>ValueError\<close>
  for a month outside 1..12.\<close>

definition month_name :: "nat \<Rightarrow> error + string" where
  "month_name m = (if 1 \<le> m \<and> m \<le> 12 then Inr (month_names ! (m - 1)) else Inl ValueError)"


section \<open>The insights document\<close>

record popular_route =
  pr_origin :: string
  pr_destination :: string
  pr_frequency :: nat
  pr_is_domestic :: bool

text \<open>The aggregates \<open>['mean', 'median', 'count']\<close> of the prices of a group.\<close>

record price_agg =
  avg_price :: "real option"
  median_price :: "real option"
  flight_count :: nat

record price_stats =
  ps_min :: "real option"
  ps_max :: "real option"
  ps_mean :: "real option"
  ps_median :: "real option"
  ps_std :: "real option"
  ps_q1 :: "real option"
  ps_q3 :: "real option"

text \<open>
  The opportunity records, one constructor per \<open>type\<close>; the field \<open>opportunity\<close>, a
  text that renders the type and the ratio, is left out.
\<close>

datatype opportunity =
    HighDemandHighPrice (op_origin: string) (op_destination: string)
      (op_frequency: nat) (op_median_price: "real option")
  | WeekendPremium (op_origin: string) (op_destination: string)
      (op_weekday_price: real) (op_weekend_price: real) (op_price_difference: real)
  | SeasonalVariation (op_origin: string) (op_destination: string)
      (op_high_price_month: string) (op_low_price_month: string) (op_price_ratio: real)

text \<open>The summary: a field is \<open>None\<close> when the key is not written.\<close>

record code_count =
  cc_code :: string
  cc_count :: nat
  cc_city :: string

record summary =
  total_flights :: nat
  domestic_flights :: "nat option"
  international_flights :: "nat option"
  domestic_percentage :: "float64 option"
  sm_avg_price :: "float64 option"
  sm_median_price :: "float64 option"
  avg_domestic_price :: "float64 option"
  avg_international_price :: "float64 option"
  top_origins :: "code_count list option"
  top_destinations :: "code_count list option"
  busiest_day :: "string option option"
  weekend_price_premium :: "float64 option"
  busiest_month :: "string option"

datatype insight =
    PopularRoutes "popular_route list"
  | DailyTrends "(date \<times> price_agg) list"
  | WeeklyTrends "((int \<times> nat) \<times> price_agg) list"
  | MonthlyPatterns "(nat \<times> price_agg) list"
  | DayPatterns "(nat \<times> price_agg \<times> string option) list"
  | PeakPeriods "string list"
  | PriceStats price_stats
  | PriceCategories "(category \<times> nat) list"
  | Opportunities "opportunity list"
  | Summary summary

record data_processor =
  raw_data :: "table option"
  processed_data :: "table option"
  insights :: "string \<rightharpoonup> insight"

text \<open>
  A method of \<open>DataProcessor\<close> is a function from the object's state to \<open>Inr\<close> of the
  state it leaves, or to \<open>Inl e\<close> when it raises \<open>e\<close>; the state an exception leaves
  behind is not modelled. The value a method returns besides (\<open>self\<close>, a frame, or
  \<open>None\<close>) is not modelled either.
\<close>

definition clean_data :: "(string \<Rightarrow> date option) \<Rightarrow> data_processor \<Rightarrow> error + data_processor" where
  "clean_data parse self =
     (case raw_data self of
        None \<Rightarrow> Inr self
      | Some raw \<Rightarrow>
          if length (rows raw) = 0 then Inr self
          else (case clean_table parse raw of
                  Inl e \<Rightarrow> Inl e
                | Inr df \<Rightarrow> Inr (self\<lparr>processed_data := Some df\<rparr>)))"

section \<open>The analysis passes\<close>

subsection \<open>\<open>analyze_popular_routes\<close>\<close>

definition route_key :: "flight \<Rightarrow> string \<times> string" where
  "route_key r = (origin r, destination r)"

text \<open>\<open>groupby(['origin', 'destination']).size().reset_index(name='frequency')\<close>\<close>

definition route_counts :: "flight list \<Rightarrow> ((string \<times> string) \<times> nat) list" where
  "route_counts rs = map (\<lambda>(k, g). (k, length g)) (groupby route_key rs)"

definition popular_route_record :: "(string \<times> string) \<times> nat \<Rightarrow> popular_route" where
  "popular_route_record e =
     \<lparr>pr_origin = fst (fst e), pr_destination = snd (fst e), pr_frequency = snd e,
      pr_is_domestic = (domestic_airport (fst (fst e)) \<and> domestic_airport (snd (fst e)))\<rparr>"


subsection \<open>\<open>analyze_price_trends\<close>\<close>









subsection \<open>\<open>analyze_seasonal_patterns\<close>\<close>






subsection \<open>\<open>analyze_price_distribution\<close>\<close>

definition series_min :: "real list \<Rightarrow> real option" where
  "series_min xs = (if xs = [] then None else Some (Min (set xs)))"

definition series_max :: "real list \<Rightarrow> real option" where
  "series_max xs = (if xs = [] then None else Some (Max (set xs)))"

text \<open>\<open>Series.std()\<close>: the sample standard deviation, NaN on fewer than two values.\<close>

definition std :: "real list \<Rightarrow> real option" where
  "std xs =
     (if length xs < 2 then None
      else let m = sum_list xs / real (length xs)
           in Some (sqrt (sum_list (map (\<lambda>x. (x - m)\<^sup>2) xs) / real (length xs - 1))))"

definition price_stats_of :: "real list \<Rightarrow> price_stats" where
  "price_stats_of ps =
     \<lparr>ps_min = series_min ps, ps_max = series_max ps, ps_mean = mean ps, ps_median = median ps,
      ps_std = std ps, ps_q1 = quantile (1/4) ps, ps_q3 = quantile (3/4) ps\<rparr>"

text \<open>
  \<open>pd.cut(price, bins=[0, 200, 500, 1000, inf], labels=...)\<close> with the defaults
  \<open>right=True\<close> and \<open>include_lowest=False\<close>: the bins are \<open>(0, 200]\<close>, \<open>(200, 500]\<close>,
  \<open>(500, 1000]\<close> and \<open>(1000, inf]\<close>; a value in no bin, and NaN, has no category.
\<close>

definition pd_cut :: "real option \<Rightarrow> category option" where
  "pd_cut p =
     (case p of
        None \<Rightarrow> None
      | Some x \<Rightarrow>
          if 0 < x \<and> x \<le> 200 then Some Budget
          else if 200 < x \<and> x \<le> 500 then Some Economy
          else if 500 < x \<and> x \<le> 1000 then Some Premium
          else if 1000 < x then Some Luxury
          else None)"

definition labels :: "category list" where
  "labels = [Budget, Economy, Premium, Luxury]"

text \<open>
  \<open>value_counts()\<close> of the categorical column: one count for every category, also the
  unobserved ones, in descending order of the counts.
\<close>

definition price_categories :: "flight list \<Rightarrow> (category \<times> nat) list" where
  "price_categories rs =
     sort_desc snd (map (\<lambda>c. (c, length (filter (\<lambda>r. price_category r = Some c) rs))) labels)"

definition add_price_category :: "table \<Rightarrow> table" where
  "add_price_category df =
     df\<lparr>columns := add_column ''price_category'' (columns df),
        rows := map (\<lambda>r. r\<lparr>price_category := pd_cut (price r)\<rparr>) (rows df)\<rparr>"

definition analyze_price_distribution :: "data_processor \<Rightarrow> error + data_processor" where
  "analyze_price_distribution self =
     (case processed_data self of
        None \<Rightarrow> Inr self
      | Some df \<Rightarrow>
          if \<not> has_column df ''price'' then Inr self
          else
            let stats = price_stats_of (prices (rows df));
                df' = add_price_category df
            in Inr (self\<lparr>processed_data := Some df',
                         insights := (insights self)
                           (''price_stats'' \<mapsto> PriceStats stats,
                            ''price_categories'' \<mapsto> PriceCategories (price_categories (rows df')))\<rparr>))"

subsection \<open>\<open>analyze_market_opportunities\<close>\<close>

text \<open>Rule 1: routes with a frequency above the median and a median price above the median.\<close>

definition exceeds :: "real option \<Rightarrow> real \<Rightarrow> bool" where
  "exceeds m x = (case m of None \<Rightarrow> False | Some v \<Rightarrow> v < x)"

definition route_prices :: "flight list \<Rightarrow> ((string \<times> string) \<times> real option) list" where
  "route_prices rs = map (\<lambda>(k, g). (k, median (prices g))) (groupby route_key rs)"

text \<open>\<open>left.merge(right, on=['origin', 'destination'])\<close>: an inner join in the order of the left frame.\<close>

definition merge :: "('k \<times> 'a) list \<Rightarrow> ('k \<times> 'b) list \<Rightarrow> ('k \<times> 'a \<times> 'b) list" where
  "merge left right =
     concat (map (\<lambda>(k, a). map (\<lambda>(k', b). (k, a, b)) (filter (\<lambda>(k', b). k' = k) right)) left)"

definition high_demand_high_price :: "table \<Rightarrow> opportunity list" where
  "high_demand_high_price df =
     (if has_column df ''origin'' \<and> has_column df ''destination'' then
        let route_demand = route_counts (rows df);
            high_demand =
              filter (\<lambda>(k, n). exceeds (median (map (\<lambda>(k, n). real n) route_demand)) (real n)) route_demand
        in if has_column df ''price'' then
             let route_analysis = merge high_demand (route_prices (rows df));
                 middle = median (dropna (map (\<lambda>(k, n, p). p) route_analysis));
                 high_opportunity =
                   filter (\<lambda>(k, n, p). case p of None \<Rightarrow> False | Some x \<Rightarrow> exceeds middle x) route_analysis
             in map (\<lambda>(k, n, p). HighDemandHighPrice (fst k) (snd k) n p) (head 5 high_opportunity)
           else []
      else [])"

text \<open>
  Rule 2: the median price of every (origin, destination, is_weekend) group, pivoted to
  one row per route and one column per value of \<open>is_weekend\<close>; a group whose median is
  NaN is dropped by the pivot. Renaming the columns to four names raises \<open>ValueError\<close>
  when \<open>is_weekend\<close> has a value besides 0 and 1.
\<close>

definition weekend_medians :: "flight list \<Rightarrow> ((string \<times> string \<times> nat) \<times> real) list" where
  "weekend_medians rs =
     concat (map (\<lambda>(k, g). case median (prices g) of None \<Rightarrow> [] | Some m \<Rightarrow> [(k, m)])
                 (groupby (\<lambda>r. (origin r, destination r, is_weekend r)) rs))"

definition weekend_premium_record ::
    "(string \<times> string) \<times> real option \<times> real option \<Rightarrow> opportunity list" where
  "weekend_premium_record e =
     (case e of
        ((ori, dest), Some weekday_price, Some weekend_price) \<Rightarrow>
          [WeekendPremium ori dest weekday_price weekend_price (weekend_price - weekday_price)]
      | _ \<Rightarrow> [])"

definition weekend_premium_rule :: "table \<Rightarrow> error + opportunity list" where
  "weekend_premium_rule df =
     (if has_column df ''is_weekend'' \<and> has_column df ''price'' then
        if \<not> (has_column df ''origin'' \<and> has_column df ''destination'') then Inl KeyError
        else
          let medians = weekend_medians (rows df);
              flags = sort (remdups (map (\<lambda>((ori, dest, w), m). w) medians))
          in if 0 \<in> set flags \<and> 1 \<in> set flags then
               if length flags \<noteq> 2 then Inl ValueError
               else
                 let routes = sort (remdups (map (\<lambda>((ori, dest, w), m). (ori, dest)) medians));
                     weekend_premium =
                       map (\<lambda>(ori, dest). ((ori, dest), map_of medians (ori, dest, 0),
                                            map_of medians (ori, dest, 1))) routes;
                     weekend_opportunities =
                       sort_desc op_price_difference
                         (concat (map weekend_premium_record
                            (filter (\<lambda>(k, weekday_price, weekend_price).
                                       fgreater (fdiv weekend_price weekday_price) 1.3)
                                    weekend_premium)))
                 in Inr (head 5 weekend_opportunities)
             else Inr []
      else Inr [])"

text \<open>
  Rule 3: the median price of every (origin, destination, month) group, as a frame
  \<open>monthly_prices\<close> whose rows carry the labels 0, 1, ... in group order.
\<close>

type_synonym month_price = "nat \<times> string \<times> string \<times> nat \<times> real option"

definition mp_label :: "month_price \<Rightarrow> nat" where "mp_label e = fst e"
definition mp_origin :: "month_price \<Rightarrow> string" where "mp_origin e = fst (snd e)"
definition mp_destination :: "month_price \<Rightarrow> string" where "mp_destination e = fst (snd (snd e))"
definition mp_month :: "month_price \<Rightarrow> nat" where "mp_month e = fst (snd (snd (snd e)))"
definition mp_price :: "month_price \<Rightarrow> real option" where "mp_price e = snd (snd (snd (snd e)))"

definition monthly_prices :: "flight list \<Rightarrow> month_price list" where
  "monthly_prices rs =
     (let groups = groupby (\<lambda>r. (origin r, destination r, month r)) rs in
      map (\<lambda>(i, ((ori, dest, m), g)). (i, ori, dest, m, median (prices g)))
          (zip [0..<length groups] groups))"

text \<open>
  \<open>Series.idxmax()\<close>: the label of the first row that holds the value. It is called
  with the maximum or the minimum of the prices of \<open>route_data\<close>, which a row holds.
\<close>

definition idx_of :: "real \<Rightarrow> month_price list \<Rightarrow> nat" where
  "idx_of v route_data = mp_label (hd (filter (\<lambda>e. mp_price e = Some v) route_data))"

text \<open>\<open>route_data.iloc[i]\<close>: the row at position \<open>i\<close> of the selection, not the row labelled \<open>i\<close>.\<close>

definition iloc :: "'a list \<Rightarrow> nat \<Rightarrow> error + 'a" where
  "iloc xs i = (if i < length xs then Inr (xs ! i) else Inl IndexError)"

definition seasonal_record :: "month_price list \<Rightarrow> string \<Rightarrow> error + opportunity list" where
  "seasonal_record monthly route =
     (let route_data = filter (\<lambda>e. mp_origin e = route) monthly;
          values = dropna (map mp_price route_data)
      in if length route_data > 1 then
           (case (series_max values, series_min values) of
              (Some hi, Some lo) \<Rightarrow>
                let price_ratio = (if lo > 0 then hi / lo else 1) in
                if price_ratio > 1.5 then
                  (case (iloc route_data (idx_of hi route_data), iloc route_data (idx_of lo route_data)) of
                     (Inr max_row, Inr min_row) \<Rightarrow>
                       (case (month_name (mp_month max_row), month_name (mp_month min_row)) of
                          (Inr high_month, Inr low_month) \<Rightarrow>
                            Inr [SeasonalVariation route (mp_destination max_row)
                                   high_month low_month price_ratio]
                        | _ \<Rightarrow> Inl ValueError)
                   | _ \<Rightarrow> Inl IndexError)
                else Inr []
            | _ \<Rightarrow> Inr [])
         else Inr [])"

text \<open>The loop over the origins: the first exception ends it.\<close>

fun collect :: "('a \<Rightarrow> error + 'b list) \<Rightarrow> 'a list \<Rightarrow> error + 'b list" where
  "collect f [] = Inr []"
| "collect f (x # xs) =
     (case f x of
        Inl e \<Rightarrow> Inl e
      | Inr ys \<Rightarrow> (case collect f xs of Inl e \<Rightarrow> Inl e | Inr zs \<Rightarrow> Inr (ys @ zs)))"

definition seasonal_variation_rule :: "table \<Rightarrow> error + opportunity list" where
  "seasonal_variation_rule df =
     (if has_column df ''month'' \<and> has_column df ''price'' then
        if \<not> (has_column df ''origin'' \<and> has_column df ''destination'') then Inl KeyError
        else
          let monthly = monthly_prices (rows df)
          in collect (seasonal_record monthly) (unique (map mp_origin monthly))
      else Inr [])"

definition analyze_market_opportunities :: "data_processor \<Rightarrow> error + data_processor" where
  "analyze_market_opportunities self =
     (case processed_data self of
        None \<Rightarrow> Inr self
      | Some df \<Rightarrow>
          (case weekend_premium_rule df of
             Inl e \<Rightarrow> Inl e
           | Inr weekend \<Rightarrow>
               (case seasonal_variation_rule df of
                  Inl e \<Rightarrow> Inl e
                | Inr seasonal \<Rightarrow>
                    Inr (self\<lparr>insights := (insights self)
                          (''market_opportunities'' \<mapsto>
                             Opportunities (high_demand_high_price df @ weekend @ seasonal))\<rparr>))))"

subsection \<open>\<open>generate_summary_insights\<close>\<close>









subsection \<open>\<open>get_insights\<close>\<close>

text \<open>
  The method returns either the whole mapping or the value of one key. The argument is
  \<open>None\<close> or a string; the empty string is falsy.
\<close>

datatype insights_result = AllInsights "string \<rightharpoonup> insight" | OneInsight insight

definition get_insights :: "data_processor \<Rightarrow> string option \<Rightarrow> insights_result" where
  "get_insights self category =
     (if insights self = Map.empty then AllInsights Map.empty
      else (case category of
              None \<Rightarrow> AllInsights (insights self)
            | Some c \<Rightarrow>
                (case insights self c of
                   Some v \<Rightarrow> if c \<noteq> [] then OneInsight v else AllInsights (insights self)
                 | None \<Rightarrow> AllInsights (insights self))))"

section \<open>The dashboard filter: \<open>filter_data\<close> (\<open>app.py\<close>)\<close>

text \<open>\<open>DataFrame.empty\<close>: one of the two axes has length 0. \<open>pd.DataFrame()\<close> has neither rows nor columns.\<close>

definition frame_empty :: "table \<Rightarrow> bool" where
  "frame_empty df \<longleftrightarrow> rows df = [] \<or> columns df = []"

definition empty_frame :: table where
  "empty_frame = \<lparr>columns = [], date_parsed = False, rows = []\<rparr>"

definition in_price_range :: "real \<times> real \<Rightarrow> flight \<Rightarrow> bool" where
  "in_price_range price_range r =
     (case price r of None \<Rightarrow> False | Some p \<Rightarrow> fst price_range \<le> p \<and> p \<le> snd price_range)"

text \<open>The route-type filter; \<open>None\<close> when the chain of \<open>if\<close>/\<open>elif\<close> selects no branch that filters.\<close>

definition route_filter :: "string list \<Rightarrow> bool option" where
  "route_filter route_types =
     (if ''Domestic'' \<in> set route_types \<and> ''International'' \<in> set route_types then None
      else if ''Domestic'' \<in> set route_types then Some True
      else if ''International'' \<in> set route_types then Some False
      else None)"

text \<open>
  The function is given a reference to the caller's frame and works on a copy. The
  result is the pair of the caller's frame after the call and the frame returned.
\<close>

definition filter_data ::
    "table option \<Rightarrow> string list \<Rightarrow> real \<times> real \<Rightarrow> error + (table option \<times> table)" where
  "filter_data data route_types price_range =
     (case data of
        None \<Rightarrow> Inr (data, empty_frame)
      | Some df \<Rightarrow>
          if frame_empty df then Inr (data, empty_frame)
          else
            (case (case route_filter route_types of
                     None \<Rightarrow> Inr df
                   | Some b \<Rightarrow>
                       if has_column df ''is_domestic''
                       then Inr (df\<lparr>rows := filter (\<lambda>r. is_domestic r = b) (rows df)\<rparr>)
                       else Inl KeyError) of
               Inl e \<Rightarrow> Inl e
             | Inr filtered \<Rightarrow>
                 Inr (data,
                      if has_column filtered ''price''
                      then filtered\<lparr>rows := filter (in_price_range price_range) (rows filtered)\<rparr>
                      else filtered)))"

section \<open>Reference predicates and example tables\<close>

text \<open>\<open>DataProcessor(raw_data)\<close>: the state \<open>__init__\<close> leaves.\<close>

definition new_processor :: "table option \<Rightarrow> data_processor" where
  "new_processor raw = \<lparr>raw_data = raw, processed_data = None, insights = Map.empty\<rparr>"

text \<open>\<open>load_data(data)\<close>\<close>

definition load_data :: "data_processor \<Rightarrow> table option \<Rightarrow> data_processor" where
  "load_data self data = self\<lparr>raw_data := data\<rparr>"

text \<open>A row whose cells are all null or zero; the examples set the cells of their columns.\<close>

definition blank :: flight where
  "blank = \<lparr>flight_date = DateText [], flight_time = None, origin = [], destination = [],
     price = None, airline = None, duration = None, is_domestic = False, day_of_week = 0,
     month = 0, is_weekend = 0, week = 0, year = 0, price_category = None\<rparr>"

text \<open>A raw table with four columns, among them only three of the five identity columns.\<close>

definition four_columns :: table where
  "four_columns =
     \<lparr>columns = [''flight_date'', ''origin'', ''destination'', ''price''],
      date_parsed = False,
      rows = [blank\<lparr>flight_date := DateText ''2024-01-05'', origin := ''SYD'',
                    destination := ''MEL'', price := Some 150\<rparr>]\<rparr>"

text \<open>
  The rows a route-type selection keeps: the domestic ones when only \<open>Domestic\<close> is
  selected, the others when only \<open>International\<close> is, every row when both or neither are.
\<close>

definition route_selected :: "string list \<Rightarrow> flight \<Rightarrow> bool" where
  "route_selected route_types r \<longleftrightarrow>
     (let dom = ''Domestic'' \<in> set route_types; intl = ''International'' \<in> set route_types in
      if dom \<and> \<not> intl then is_domestic r else if intl \<and> \<not> dom then \<not> is_domestic r else True)"

text \<open>
  What \<open>impute_prices\<close> computes, row by row: the row's own price; when that is null,
  \<open>route_median\<close> at the row; when that is null too, the median of the price column as
  the route-level fill left it.
\<close>

definition imputed_price :: "flight list \<Rightarrow> flight \<Rightarrow> real option" where
  "imputed_price rs r =
     (case price r of
        Some p \<Rightarrow> Some p
      | None \<Rightarrow>
          (case route_median rs r of
             Some m \<Rightarrow> Some m
           | None \<Rightarrow> median (prices (fillna (route_median rs) rs))))"

text \<open>
  The median in the specification's words, stated without sorting. The values fall into
  a lower and an upper half, no value of the lower half above one of the upper half.
  With an odd number of values the lower half has one value more and the median is its
  greatest value; with an even number the halves are equal and the median is the mean
  of the greatest value of the lower half and the least value of the upper half.
\<close>

definition spec_median :: "real list \<Rightarrow> real \<Rightarrow> bool" where
  "spec_median xs m \<longleftrightarrow>
     (\<exists>lo hi a. mset xs = mset lo + mset hi
        \<and> (\<forall>x \<in> set lo. \<forall>y \<in> set hi. x \<le> y)
        \<and> a \<in> set lo \<and> (\<forall>x \<in> set lo. x \<le> a)
        \<and> (length lo = length hi + 1 \<and> m = a
            \<or> length lo = length hi \<and> (\<exists>b \<in> set hi. (\<forall>y \<in> set hi. b \<le> y) \<and> m = (a + b) / 2)))"

text \<open>The prices of the priced rows that share the (origin, destination) pair of \<open>r\<close>.\<close>

definition priced_on_route :: "flight list \<Rightarrow> flight \<Rightarrow> real list" where
  "priced_on_route rs r =
     List.map_filter price (filter (\<lambda>x. origin x = origin r \<and> destination x = destination r) rs)"

text \<open>
  The route-level fill of the specification: a priced row keeps its price; an unpriced
  row gets the median of the priced rows of its pair, and stays unpriced when the pair
  has none.
\<close>

definition spec_route_fill :: "flight list \<Rightarrow> flight \<Rightarrow> real option \<Rightarrow> bool" where
  "spec_route_fill rs r q \<longleftrightarrow>
     (case price r of
        Some p \<Rightarrow> q = Some p
      | None \<Rightarrow> if priced_on_route rs r = [] then q = None
                else \<exists>m. q = Some m \<and> spec_median (priced_on_route rs r) m)"

text \<open>
  The imputation of the specification, as amended for C3: \<open>col\<close> is the price column
  after the route-level fill, and a row still unpriced in it gets the median of \<open>col\<close>,
  the values the route-level fill has written counted with the input prices. No cell
  of a row other than its price changes.
\<close>

definition spec_imputation :: "flight list \<Rightarrow> flight list \<Rightarrow> bool" where
  "spec_imputation rs filled \<longleftrightarrow>
     (\<exists>col. list_all2 (spec_route_fill rs) rs col
        \<and> list_all2 (\<lambda>(r, q) r'. \<exists>m. r' = r\<lparr>price := Some m\<rparr>
                        \<and> (case q of Some p \<Rightarrow> m = p
                            | None \<Rightarrow> spec_median (List.map_filter id col) m))
            (zip rs col) filled)"

text \<open>The cells that no step of the cleaner after the imputation changes.\<close>

definition same_listing :: "flight \<Rightarrow> flight \<Rightarrow> bool" where
  "same_listing r r' \<longleftrightarrow>
     price r' = price r \<and> origin r' = origin r \<and> destination r' = destination r
     \<and> flight_time r' = flight_time r \<and> airline r' = airline r"

definition derived_columns :: "string list" where
  "derived_columns = [''day_of_week'', ''month'', ''is_weekend'']"

text \<open>What the cleaner establishes on the table it stores.\<close>

definition cleaned :: "table \<Rightarrow> bool" where
  "cleaned df \<longleftrightarrow>
     (has_column df ''price'' \<longrightarrow> (\<forall>r \<in> set (rows df). price r \<noteq> None))
     \<and> ((\<forall>c \<in> set identity_columns. has_column df c) \<longrightarrow> distinct (map identity_key (rows df)))
     \<and> (has_column df ''flight_date'' \<and> date_parsed df \<longrightarrow>
          (\<forall>c \<in> set derived_columns. has_column df c)
          \<and> (\<forall>r \<in> set (rows df). derive_calendar r = r))"

text \<open>
  The date parser of the examples: the dates of the form \<open>%Y-%m-%d\<close>, which is how
  the collector writes them and which \<open>pd.to_datetime\<close> reads.
\<close>

definition digit :: "char \<Rightarrow> nat option" where
  "digit c = (let n = of_char c in if 48 \<le> n \<and> n \<le> (57::nat) then Some (n - 48) else None)"

fun number :: "nat \<Rightarrow> string \<Rightarrow> nat option" where
  "number acc [] = Some acc"
| "number acc (c # cs) = (case digit c of None \<Rightarrow> None | Some d \<Rightarrow> number (10 * acc + d) cs)"

definition parse_iso :: "string \<Rightarrow> date option" where
  "parse_iso s =
     (if length s = 10 \<and> s ! 4 = CHR ''-'' \<and> s ! 7 = CHR ''-'' then
        (case (number 0 (take 4 s), number 0 (take 2 (drop 5 s)), number 0 (drop 8 s)) of
           (Some y, Some m, Some d) \<Rightarrow>
             if 1 \<le> y \<and> 1 \<le> m \<and> m \<le> 12 \<and> 1 \<le> d \<and> int d \<le> days_in_month (int y) m
             then Some (Date (int y) m d) else None
         | _ \<Rightarrow> None)
      else None)"

text \<open>The eight columns of the collector's frame, and a row of it.\<close>

definition listing_columns :: "string list" where
  "listing_columns = [''flight_date'', ''flight_time'', ''origin'', ''destination'', ''price'',
                      ''airline'', ''duration'', ''is_domestic'']"

definition listing :: "string \<Rightarrow> string \<Rightarrow> string \<Rightarrow> real option \<Rightarrow> flight" where
  "listing d ori dest p =
     blank\<lparr>flight_date := DateText d, flight_time := Some ''09:30'', origin := ori,
           destination := dest, price := p, airline := Some ''Qantas'',
           is_domestic := (domestic_airport ori \<and> domestic_airport dest)\<rparr>"

text \<open>The same row as the cleaner leaves it, with its day of the week and weekend flag.\<close>

definition cleaned_listing :: "date \<Rightarrow> nat \<Rightarrow> nat \<Rightarrow> string \<Rightarrow> string \<Rightarrow> real \<Rightarrow> flight" where
  "cleaned_listing d dow wkend ori dest p =
     blank\<lparr>flight_date := Timestamp d, flight_time := Some ''09:30'', origin := ori,
           destination := dest, price := Some p, airline := Some ''Qantas'',
           is_domestic := (domestic_airport ori \<and> domestic_airport dest),
           day_of_week := dow, month := date_month d, is_weekend := wkend\<rparr>"

definition cleaned_columns :: "string list" where
  "cleaned_columns = listing_columns @ [''day_of_week'', ''month'', ''is_weekend'']"

text \<open>The four listings of the specification's scenario, one of them without a price.\<close>

definition scenario :: table where
  "scenario =
     \<lparr>columns = listing_columns, date_parsed = False,
      rows = [listing ''2024-01-05'' ''SYD'' ''MEL'' (Some 150),
              listing ''2024-01-06'' ''SYD'' ''MEL'' (Some 160),
              listing ''2024-01-07'' ''SYD'' ''LAX'' (Some 1200),
              listing ''2024-01-08'' ''SYD'' ''LAX'' None]\<rparr>"

definition scenario_cleaned :: table where
  "scenario_cleaned =
     \<lparr>columns = cleaned_columns, date_parsed = True,
      rows = [cleaned_listing (Date 2024 1 5) 4 0 ''SYD'' ''MEL'' 150,
              cleaned_listing (Date 2024 1 6) 5 1 ''SYD'' ''MEL'' 160,
              cleaned_listing (Date 2024 1 7) 6 1 ''SYD'' ''LAX'' 1200,
              cleaned_listing (Date 2024 1 8) 0 0 ''SYD'' ''LAX'' 1200]\<rparr>"

text \<open>
  A table with two unpriced rows, one of them on a route without any priced row, and
  what the cleaner leaves of it.
\<close>

definition unpriced_route :: table where
  "unpriced_route =
     \<lparr>columns = [''origin'', ''destination'', ''price''], date_parsed = False,
      rows = [blank\<lparr>origin := ''SYD'', destination := ''MEL'', price := Some 10\<rparr>,
              blank\<lparr>origin := ''SYD'', destination := ''MEL''\<rparr>,
              blank\<lparr>origin := ''SYD'', destination := ''BNE'', price := Some 30\<rparr>,
              blank\<lparr>origin := ''SYD'', destination := ''BNE'', price := Some 40\<rparr>,
              blank\<lparr>origin := ''SYD'', destination := ''PER''\<rparr>]\<rparr>"

definition unpriced_route_cleaned :: table where
  "unpriced_route_cleaned =
     unpriced_route\<lparr>rows :=
       [blank\<lparr>origin := ''SYD'', destination := ''MEL'', price := Some 10\<rparr>,
        blank\<lparr>origin := ''SYD'', destination := ''MEL'', price := Some 10\<rparr>,
        blank\<lparr>origin := ''SYD'', destination := ''BNE'', price := Some 30\<rparr>,
        blank\<lparr>origin := ''SYD'', destination := ''BNE'', price := Some 40\<rparr>,
        blank\<lparr>origin := ''SYD'', destination := ''PER'', price := Some 20\<rparr>]\<rparr>"

text \<open>A table of three columns and six prices, and what one and two cleanings leave of it.\<close>

definition price_rows :: "real list \<Rightarrow> flight list" where
  "price_rows ps = map (\<lambda>p. blank\<lparr>origin := ''SYD'', destination := ''MEL'', price := Some p\<rparr>) ps"

definition six_prices :: table where
  "six_prices = \<lparr>columns = [''origin'', ''destination'', ''price''], date_parsed = False,
                 rows = price_rows [10, 10, 10, 10, 12, 20]\<rparr>"

definition once_cleaned :: table where
  "once_cleaned = six_prices\<lparr>rows := price_rows [10, 10, 10, 10, 12]\<rparr>"

definition twice_cleaned :: table where
  "twice_cleaned = six_prices\<lparr>rows := price_rows [10, 10, 10, 10]\<rparr>"

definition once_state :: data_processor where
  "once_state = (new_processor (Some six_prices))\<lparr>processed_data := Some once_cleaned\<rparr>"

definition twice_state :: data_processor where
  "twice_state = (load_data once_state (Some once_cleaned))\<lparr>processed_data := Some twice_cleaned\<rparr>"

text \<open>The route of a popular-routes record, and the number of rows of a route.\<close>

definition pr_route :: "popular_route \<Rightarrow> string \<times> string" where
  "pr_route e = (pr_origin e, pr_destination e)"


text \<open>The processor after \<open>clean_data\<close> on the scenario.\<close>

definition cleaned_state :: data_processor where
  "cleaned_state = (new_processor (Some scenario))\<lparr>processed_data := Some scenario_cleaned\<rparr>"








text \<open>The buckets as the specification words them: closed on the left, open on the right.\<close>

definition spec_category :: "real \<Rightarrow> category option" where
  "spec_category x =
     (if 0 \<le> x \<and> x < 200 then Some Budget
      else if 200 \<le> x \<and> x < 500 then Some Economy
      else if 500 \<le> x \<and> x < 1000 then Some Premium
      else if 1000 \<le> x then Some Luxury
      else None)"

text \<open>The buckets of the code: open on the left, closed on the right.\<close>

definition bucket :: "category \<Rightarrow> real \<Rightarrow> bool" where
  "bucket c x =
     (case c of
        Budget \<Rightarrow> 0 < x \<and> x \<le> 200
      | Economy \<Rightarrow> 200 < x \<and> x \<le> 500
      | Premium \<Rightarrow> 500 < x \<and> x \<le> 1000
      | Luxury \<Rightarrow> 1000 < x)"

definition priced_in :: "category \<Rightarrow> flight \<Rightarrow> bool" where
  "priced_in c r = (case price r of None \<Rightarrow> False | Some x \<Rightarrow> bucket c x)"

definition positive_price :: "flight \<Rightarrow> bool" where
  "positive_price r = (case price r of None \<Rightarrow> False | Some x \<Rightarrow> 0 < x)"

text \<open>Two prices on the boundaries of the bins, and the processor before and after the price distribution.\<close>

definition boundary_prices :: table where
  "boundary_prices = \<lparr>columns = [''origin'', ''destination'', ''price''], date_parsed = False,
                      rows = price_rows [0, 200]\<rparr>"

definition boundary_state :: data_processor where
  "boundary_state = (new_processor (Some boundary_prices))\<lparr>processed_data := Some boundary_prices\<rparr>"

definition boundary_categories :: "(category \<times> nat) list" where
  "boundary_categories = [(Budget, 1), (Economy, 0), (Premium, 0), (Luxury, 0)]"

definition boundary_result :: data_processor where
  "boundary_result =
     boundary_state\<lparr>processed_data := Some (add_price_category boundary_prices),
                    insights := (insights boundary_state)
                      (''price_stats'' \<mapsto> PriceStats (price_stats_of [0, 200]),
                       ''price_categories'' \<mapsto> PriceCategories boundary_categories)\<rparr>"

text \<open>Listings of two origins, the second one with a seasonal variation; and of that origin alone.\<close>

definition two_origins :: table where
  "two_origins =
     \<lparr>columns = listing_columns, date_parsed = False,
      rows = [listing ''2024-01-10'' ''AKL'' ''SYD'' (Some 100),
              listing ''2024-01-11'' ''SYD'' ''MEL'' (Some 1000),
              listing ''2024-06-12'' ''SYD'' ''MEL'' (Some 400)]\<rparr>"

definition two_origins_cleaned :: table where
  "two_origins_cleaned =
     \<lparr>columns = cleaned_columns, date_parsed = True,
      rows = [cleaned_listing (Date 2024 1 10) 2 0 ''AKL'' ''SYD'' 100,
              cleaned_listing (Date 2024 1 11) 3 0 ''SYD'' ''MEL'' 1000,
              cleaned_listing (Date 2024 6 12) 2 0 ''SYD'' ''MEL'' 400]\<rparr>"

definition two_origins_state :: data_processor where
  "two_origins_state = (new_processor (Some two_origins))\<lparr>processed_data := Some two_origins_cleaned\<rparr>"

definition one_origin_cleaned :: table where
  "one_origin_cleaned =
     \<lparr>columns = cleaned_columns, date_parsed = True,
      rows = [cleaned_listing (Date 2024 1 11) 3 0 ''SYD'' ''MEL'' 1000,
              cleaned_listing (Date 2024 6 12) 2 0 ''SYD'' ''MEL'' 400]\<rparr>"

text \<open>
  A row is unchanged but for the cells of the columns \<open>new\<close>, which are among the
  columns the passes add: \<open>month\<close>, \<open>week\<close>, \<open>year\<close> and \<open>price_category\<close>.
\<close>

definition unchanged_but :: "string list \<Rightarrow> flight \<Rightarrow> flight \<Rightarrow> bool" where
  "unchanged_but new r r' \<longleftrightarrow>
     r' = r\<lparr>month := (if ''month'' \<in> set new then month r' else month r),
            week := (if ''week'' \<in> set new then week r' else week r),
            year := (if ''year'' \<in> set new then year r' else year r),
            price_category :=
              (if ''price_category'' \<in> set new then price_category r' else price_category r)\<rparr>"

text \<open>
  A table is extended by the columns \<open>new\<close>: its columns stay where they are, only
  columns of \<open>new\<close> are appended, and its rows stay in place and are unchanged but for
  the cells of \<open>new\<close>.
\<close>

definition table_extended :: "string list \<Rightarrow> table \<Rightarrow> table \<Rightarrow> bool" where
  "table_extended new df df' \<longleftrightarrow>
     take (length (columns df)) (columns df') = columns df
     \<and> set (columns df') \<subseteq> set (columns df) \<union> set new
     \<and> date_parsed df' = date_parsed df
     \<and> list_all2 (unchanged_but new) (rows df) (rows df')"

text \<open>
  What a pass leaves alone: the raw table, the insights under every key that is not
  one of its own \<open>keys\<close>, and the processed table but for its extension by \<open>new\<close>.
\<close>

definition frame_kept :: "string list \<Rightarrow> string list \<Rightarrow> data_processor \<Rightarrow> data_processor \<Rightarrow> bool" where
  "frame_kept new keys self self' \<longleftrightarrow>
     raw_data self' = raw_data self
     \<and> (\<forall>k. k \<notin> set keys \<longrightarrow> insights self' k = insights self k)
     \<and> rel_option (table_extended new) (processed_data self) (processed_data self')"








section \<open>Properties of the cleaner\<close>

text \<open>
  C1 (clean_data never raises). The claim fails on a raw table with more than three
  columns that lacks one of the five identity columns: the guard of the deduplication
  counts the columns instead of looking for the identity columns, and
  \<open>drop_duplicates\<close> raises \<open>KeyError\<close>. Here the table has the columns
  \<open>flight_date\<close>, \<open>origin\<close>, \<open>destination\<close> and \<open>price\<close>, and one row.
\<close>

theorem clean_data_four_columns:
  "clean_data parse (new_processor (Some four_columns)) = Inl KeyError"
  by (simp add: clean_data_def new_processor_def four_columns_def clean_table_def clean_impute_def
      clean_duplicates_def clean_dates_def to_datetime_def has_column_def identity_columns_def
      split: sum.splits)

lemma sort_eq_Nil: "sort xs = [] \<longleftrightarrow> xs = []"
  by (metis length_0_conv length_sort)

lemma median_eq_None: "median xs = None \<longleftrightarrow> xs = []"
  unfolding median_def Let_def by (simp add: sort_eq_Nil del: not_None_eq)

lemma median_defined: "xs \<noteq> [] \<Longrightarrow> \<exists>m. median xs = Some m"
  using median_eq_None [of xs] by auto

lemma sorted_wrt_take_drop:
  assumes "sorted_wrt P xs" "x \<in> set (take n xs)" "y \<in> set (drop n xs)"
  shows "P x y"
proof -
  from assms(1) have "sorted_wrt P (take n xs @ drop n xs)" by simp
  with assms(2,3) show ?thesis unfolding sorted_wrt_append by blast
qed

lemma dropna_eq_Nil: "dropna xs = [] \<longleftrightarrow> (\<forall>x \<in> set xs. x = None)"
  by (induction xs rule: dropna.induct) auto

lemma set_dropna: "set (dropna xs) = {x. Some x \<in> set xs}"
  by (induction xs rule: dropna.induct) auto

lemma impute_prices_eq:
  "impute_prices rs = map (\<lambda>r. r\<lparr>price := imputed_price rs r\<rparr>) rs"
  by (auto simp: impute_prices_def fillna_def imputed_price_def Let_def split: option.splits)

lemma fillna_keeps_priced:
  assumes "r \<in> set rs" "price r \<noteq> None"
  shows "prices (fillna v rs) \<noteq> []"
proof -
  from assms have "r \<in> set (fillna v rs)"
    by (force simp: fillna_def image_iff split: option.splits)
  with assms(2) show ?thesis
    by (auto simp: prices_def dropna_eq_Nil)
qed

lemma imputed_price_defined:
  assumes "x \<in> set rs" "price x \<noteq> None"
  shows "imputed_price rs r \<noteq> None"
  using median_defined [OF fillna_keeps_priced [OF assms, of "route_median rs"]]
  by (auto simp: imputed_price_def split: option.splits)

lemma set_drop_duplicates: "set (drop_duplicates key seen rs) \<subseteq> set rs"
  by (induction rs arbitrary: seen) auto

lemma clean_impute_rows:
  assumes "clean_impute df = Inr df1" "has_column df ''price''"
  shows "rows df1 = map (\<lambda>r. r\<lparr>price := imputed_price (rows df) r\<rparr>) (rows df)
         \<and> columns df1 = columns df \<and> date_parsed df1 = date_parsed df"
proof (cases "\<exists>r \<in> set (rows df). price r = None")
  case True
  with assms show ?thesis
    by (auto simp: clean_impute_def impute_prices_eq split: if_splits)
next
  case False
  then have "map (\<lambda>r. r\<lparr>price := imputed_price (rows df) r\<rparr>) (rows df) = rows df"
    by (intro map_idI) (auto simp: imputed_price_def split: option.splits)
  moreover from False assms(1) have "df1 = df"
    unfolding clean_impute_def by (metis Inr_inject)
  ultimately show ?thesis by simp
qed

lemma clean_dates_listing:
  "r' \<in> set (rows (clean_dates parse df)) \<Longrightarrow> \<exists>r \<in> set (rows df). same_listing r r'"
  by (auto simp: clean_dates_def to_datetime_def same_listing_def split: if_splits)

lemma clean_duplicates_listing:
  "clean_duplicates df = Inr df' \<Longrightarrow> r \<in> set (rows df') \<Longrightarrow> r \<in> set (rows df)"
  using set_drop_duplicates [of identity_key "[]" "rows df"]
  by (auto simp: clean_duplicates_def split: if_splits)

lemma clean_outliers_listing:
  "r \<in> set (rows (clean_outliers df)) \<Longrightarrow> r \<in> set (rows df)"
  by (auto simp: clean_outliers_def remove_outliers_def split: if_splits)

lemma clean_calendar_listing:
  "r' \<in> set (rows (clean_calendar df)) \<Longrightarrow> \<exists>r \<in> set (rows df). same_listing r r'"
  by (auto simp: clean_calendar_def derive_calendar_def same_listing_def Let_def split: if_splits)

lemma clean_outliers_priced:
  "has_column df ''price'' \<Longrightarrow> r \<in> set (rows (clean_outliers df)) \<Longrightarrow> price r \<noteq> None"
  by (auto simp: clean_outliers_def remove_outliers_def in_fence_def split: option.splits)

lemma clean_dates_columns [simp]: "columns (clean_dates parse df) = columns df"
  by (simp add: clean_dates_def to_datetime_def)

lemma clean_duplicates_columns: "clean_duplicates df = Inr df' \<Longrightarrow> columns df' = columns df"
  by (auto simp: clean_duplicates_def split: if_splits)

lemma clean_table_steps:
  assumes "clean_table parse df = Inr df'"
  obtains df1 df3 where "clean_impute df = Inr df1"
    "clean_duplicates (clean_dates parse df1) = Inr df3"
    "df' = clean_calendar (clean_outliers df3)"
  using assms by (auto simp: clean_table_def split: sum.splits)

lemma clean_table_imputes:
  assumes "has_column df ''price''" and "clean_table parse df = Inr df'"
  shows "(\<forall>r' \<in> set (rows df'). price r' \<noteq> None)
    \<and> (\<forall>r' \<in> set (rows df'). \<exists>r \<in> set (rows df).
          price r' = imputed_price (rows df) r \<and> origin r' = origin r
          \<and> destination r' = destination r)"
proof -
  from assms(2) obtain df1 df3 where s: "clean_impute df = Inr df1"
    "clean_duplicates (clean_dates parse df1) = Inr df3"
    "df' = clean_calendar (clean_outliers df3)"
    by (rule clean_table_steps)
  from s(1) assms(1) have r1: "rows df1 = map (\<lambda>r. r\<lparr>price := imputed_price (rows df) r\<rparr>) (rows df)"
    and c1: "columns df1 = columns df"
    by (simp_all add: clean_impute_rows)
  have c3: "has_column df3 ''price''"
    using clean_duplicates_columns [OF s(2)] c1 assms(1) by (simp add: has_column_def)
  have a: "\<forall>r' \<in> set (rows df'). price r' \<noteq> None"
  proof
    fix r' assume "r' \<in> set (rows df')"
    then obtain r where "r \<in> set (rows (clean_outliers df3))" "same_listing r r'"
      unfolding s(3) using clean_calendar_listing by blast
    then show "price r' \<noteq> None"
      using clean_outliers_priced [OF c3] by (simp add: same_listing_def)
  qed
  have d: "\<forall>r' \<in> set (rows df'). \<exists>r \<in> set (rows df).
          price r' = imputed_price (rows df) r \<and> origin r' = origin r \<and> destination r' = destination r"
  proof
    fix r' assume "r' \<in> set (rows df')"
    then obtain r4 where r4: "r4 \<in> set (rows (clean_outliers df3))" "same_listing r4 r'"
      unfolding s(3) using clean_calendar_listing by blast
    then have "r4 \<in> set (rows (clean_dates parse df1))"
      using clean_outliers_listing clean_duplicates_listing [OF s(2)] by blast
    then obtain r1 where r1': "r1 \<in> set (rows df1)" "same_listing r1 r4"
      using clean_dates_listing by blast
    then obtain r where "r \<in> set (rows df)" "r1 = r\<lparr>price := imputed_price (rows df) r\<rparr>"
      unfolding r1 by auto
    with r1' r4 show "\<exists>r \<in> set (rows df).
          price r' = imputed_price (rows df) r \<and> origin r' = origin r \<and> destination r' = destination r"
      by (auto simp: same_listing_def)
  qed
  from a d show ?thesis by simp
qed

text \<open>The method on a raw table with rows: it stores what \<open>clean_table\<close> returns.\<close>

lemma clean_data_cleans:
  assumes "raw_data self = Some raw" and "rows raw \<noteq> []" and "clean_data parse self = Inr self'"
  shows "\<exists>df. clean_table parse raw = Inr df \<and> self' = self\<lparr>processed_data := Some df\<rparr>"
  using assms by (auto simp: clean_data_def split: sum.splits)

text \<open>
  The first half of C1 holds: without a raw table, or with one without rows, the method
  returns the processor as it is; and with the five identity columns it does not raise.
\<close>

lemma clean_data_no_data:
  "raw_data self = None \<or> (\<exists>raw. raw_data self = Some raw \<and> rows raw = []) \<Longrightarrow>
   clean_data parse self = Inr self"
  by (auto simp: clean_data_def)

lemma clean_data_returns:
  assumes "\<forall>c \<in> set identity_columns. has_column raw c" and "raw_data self = Some raw"
  shows "\<exists>self'. clean_data parse self = Inr self'"
proof -
  from assms(1) have od: "has_column raw ''origin''" "has_column raw ''destination''"
    by (simp_all add: identity_columns_def)
  then have "\<exists>df1. clean_impute raw = Inr df1 \<and> columns df1 = columns raw"
    by (cases "has_column raw ''price'' \<and> (\<exists>r \<in> set (rows raw). price r = None)")
      (simp_all add: clean_impute_def)
  then obtain df1 where 1: "clean_impute raw = Inr df1" "columns df1 = columns raw"
    by blast
  with assms(1) have "\<forall>c \<in> set identity_columns. has_column (clean_dates parse df1) c"
    by (simp add: has_column_def)
  then have "\<exists>df3. clean_duplicates (clean_dates parse df1) = Inr df3"
    unfolding clean_duplicates_def by (cases "3 < length (columns (clean_dates parse df1))") simp_all
  then obtain df3 where "clean_duplicates (clean_dates parse df1) = Inr df3"
    by blast
  with 1 assms(2) show ?thesis
    by (simp add: clean_data_def clean_table_def)
qed

lemma scenario_clean: "clean_table parse_iso scenario = Inr scenario_cleaned"
  by code_simp

lemma scenario_rows: "rows scenario \<noteq> []"
  by (simp add: scenario_def)

lemma scenario_cleaned_state: "clean_data parse_iso (new_processor (Some scenario)) = Inr cleaned_state"
  by (simp add: clean_data_def scenario_clean scenario_rows cleaned_state_def new_processor_def)

lemma cleaned_state_table: "processed_data cleaned_state = Some scenario_cleaned"
  by (simp add: cleaned_state_def)

lemma map_filter_dropna: "List.map_filter f xs = dropna (map f xs)"
  by (induction xs) (auto simp: List.map_filter_simps split: option.splits)

lemma priced_on_route_prices: "priced_on_route rs r = prices (filter (same_route r) rs)"
  by (simp add: priced_on_route_def map_filter_dropna prices_def same_route_def [abs_def])

lemma median_spec_median:
  assumes "median xs = Some m"
  shows "spec_median xs m"
proof -
  let ?s = "sort xs" and ?n = "length xs"
  have s: "sorted ?s" "length ?s = ?n" "mset ?s = mset xs" by simp_all
  from assms have n: "0 < ?n"
    by (cases xs) (simp_all add: median_def)
  have split: "mset xs = mset (take k ?s) + mset (drop k ?s)" for k
    by (metis append_take_drop_id mset_append s(3))
  have le: "\<forall>x \<in> set (take k ?s). \<forall>y \<in> set (drop k ?s). x \<le> y" for k
    using sorted_wrt_take_drop [of "(\<le>)" ?s _ k] s(1) by blast
  show ?thesis
  proof (cases "odd ?n")
    case True
    let ?k = "?n div 2 + 1"
    from True have k: "?k \<le> ?n" "?n - ?k + 1 = ?k"
      by (auto elim!: oddE)
    from assms True n have m: "m = ?s ! (?n div 2)"
      by (simp add: median_def Let_def sort_eq_Nil)
    have len: "length (take ?k ?s) = length (drop ?k ?s) + 1"
      using k by simp
    have a: "?s ! (?n div 2) \<in> set (take ?k ?s)"
      using k by (metis (no_types, lifting) add.commute in_set_conv_nth length_take less_add_one
          min.absorb2 nth_take s(2))
    have top: "\<forall>x \<in> set (take ?k ?s). x \<le> ?s ! (?n div 2)"
    proof
      fix x assume "x \<in> set (take ?k ?s)"
      then obtain i where "i < ?k" "i < ?n" "x = ?s ! i"
        by (auto simp: in_set_conv_nth)
      then show "x \<le> ?s ! (?n div 2)"
        using s(1) k by (auto intro!: sorted_nth_mono)
    qed
    show ?thesis
      unfolding spec_median_def using split [of ?k] le [of ?k] a top len m by blast
  next
    case False
    let ?k = "?n div 2"
    from False n have k: "0 < ?k" "?k < ?n" "?n - ?k = ?k"
      by (auto elim!: evenE) (cases xs, simp_all)
    from assms False n have m: "m = (?s ! (?k - 1) + ?s ! ?k) / 2"
      by (simp add: median_def Let_def sort_eq_Nil)
    have len: "length (take ?k ?s) = length (drop ?k ?s)"
      using k by simp
    have a: "?s ! (?k - 1) \<in> set (take ?k ?s)"
      using k by (auto simp: in_set_conv_nth intro!: exI [of _ "?k - 1"])
    have top: "\<forall>x \<in> set (take ?k ?s). x \<le> ?s ! (?k - 1)"
    proof
      fix x assume "x \<in> set (take ?k ?s)"
      then obtain i where "i < ?k" "i < ?n" "x = ?s ! i"
        by (auto simp: in_set_conv_nth)
      then show "x \<le> ?s ! (?k - 1)"
        using s(1) k by (auto intro!: sorted_nth_mono)
    qed
    have b: "?s ! ?k \<in> set (drop ?k ?s)"
      using k by (auto simp: in_set_conv_nth intro!: exI [of _ 0])
    have bot: "\<forall>y \<in> set (drop ?k ?s). ?s ! ?k \<le> y"
    proof
      fix y assume "y \<in> set (drop ?k ?s)"
      then obtain i where "i < ?n - ?k" "y = ?s ! (?k + i)"
        by (auto simp: in_set_conv_nth)
      then have "?k + i < ?n" "y = ?s ! (?k + i)"
        by simp_all
      then show "?s ! ?k \<le> y"
        using s(1) by (auto intro!: sorted_nth_mono)
    qed
    show ?thesis
      unfolding spec_median_def using split [of ?k] le [of ?k] a top len b bot m by blast
  qed
qed

lemma spec_median_median:
  assumes "spec_median xs m"
  shows "median xs = Some m"
proof -
  from assms obtain lo hi a where h: "mset xs = mset lo + mset hi"
    "\<forall>x \<in> set lo. \<forall>y \<in> set hi. x \<le> y" "a \<in> set lo" "\<forall>x \<in> set lo. x \<le> a"
    "length lo = length hi + 1 \<and> m = a
     \<or> length lo = length hi \<and> (\<exists>b \<in> set hi. (\<forall>y \<in> set hi. b \<le> y) \<and> m = (a + b) / 2)"
    unfolding spec_median_def by blast
  have srt: "sort xs = sort lo @ sort hi"
  proof (rule properties_for_sort)
    show "mset (sort lo @ sort hi) = mset xs" using h(1) by simp
    show "sorted (sort lo @ sort hi)" using h(2) by (simp add: sorted_append)
  qed
  have n: "length xs = length lo + length hi"
    by (metis h(1) mset_append length_append mset_eq_length)
  from h(3) have lo: "lo \<noteq> []" by auto
  have last: "sort lo ! (length lo - 1) = a"
  proof -
    have "sort lo \<noteq> []" using lo by (simp add: sort_eq_Nil)
    then have "sort lo ! (length lo - 1) = last (sort lo)"
      by (simp add: last_conv_nth)
    moreover have "last (sort lo) \<in> set lo"
      using \<open>sort lo \<noteq> []\<close> by (metis last_in_set set_sort)
    moreover obtain i where "i < length lo" "sort lo ! i = a"
      using h(3) by (metis in_set_conv_nth length_sort set_sort)
    then have "a \<le> sort lo ! (length lo - 1)"
      using sorted_nth_mono [of "sort lo" i "length lo - 1"] by auto
    ultimately show ?thesis using h(4) by fastforce
  qed
  from h(5) show ?thesis
  proof
    assume c: "length lo = length hi + 1 \<and> m = a"
    then have "odd (length xs)" "length xs div 2 = length lo - 1"
      using n by simp_all
    then show ?thesis
      using c last lo n
      by (simp add: median_def Let_def srt nth_append sort_eq_Nil)
  next
    assume c: "length lo = length hi \<and> (\<exists>b \<in> set hi. (\<forall>y \<in> set hi. b \<le> y) \<and> m = (a + b) / 2)"
    then obtain b where b: "b \<in> set hi" "\<forall>y \<in> set hi. b \<le> y" "m = (a + b) / 2"
      by blast
    have first: "sort hi ! 0 = b"
    proof -
      from b(1) have "sort hi \<noteq> []" by (auto simp: sort_eq_Nil)
      then have "sort hi ! 0 \<in> set hi"
        by (metis length_greater_0_conv nth_mem set_sort)
      moreover obtain i where "i < length hi" "sort hi ! i = b"
        using b(1) by (metis in_set_conv_nth length_sort set_sort)
      then have "sort hi ! 0 \<le> b"
        using sorted_nth_mono [of "sort hi" 0 i] by auto
      ultimately show ?thesis using b(2) by fastforce
    qed
    from c n lo have "even (length xs)" "length xs div 2 = length lo" "0 < length lo"
      by auto
    then show ?thesis
      using c last first b(3) n
      by (simp add: median_def Let_def srt nth_append sort_eq_Nil)
  qed
qed

lemma spec_median_iff: "spec_median xs m \<longleftrightarrow> median xs = Some m"
  using median_spec_median spec_median_median by blast

lemma fillna_prices:
  "map price (fillna v rs) = map (\<lambda>r. case price r of None \<Rightarrow> v r | Some p \<Rightarrow> Some p) rs"
  by (simp add: fillna_def comp_def split: option.splits cong: map_cong)

lemma zip_map_same: "zip xs (map f xs) = map (\<lambda>x. (x, f x)) xs"
  by (induction xs) simp_all

lemma impute_prices_spec:
  assumes "x \<in> set rs" and "price x \<noteq> None"
  shows "spec_imputation rs (impute_prices rs)"
proof -
  let ?fill = "\<lambda>r. case price r of None \<Rightarrow> route_median rs r | Some p \<Rightarrow> Some p"
  let ?col = "map ?fill rs"
  have col: "List.map_filter id ?col = prices (fillna (route_median rs) rs)"
    by (simp add: map_filter_dropna prices_def fillna_prices)
  from median_defined [OF fillna_keeps_priced [OF assms, of "route_median rs"]]
  obtain overall where overall: "median (prices (fillna (route_median rs) rs)) = Some overall"
    by blast
  have 1: "spec_route_fill rs r (?fill r)" for r
  proof (cases "price r")
    case None
    show ?thesis
    proof (cases "priced_on_route rs r = []")
      case True
      with None show ?thesis
        by (simp add: spec_route_fill_def route_median_def priced_on_route_prices [symmetric]
            median_eq_None)
    next
      case False
      then obtain m where m: "median (priced_on_route rs r) = Some m"
        using median_defined by blast
      then have "spec_median (priced_on_route rs r) m"
        by (rule median_spec_median)
      with None False m show ?thesis
        by (simp add: spec_route_fill_def route_median_def priced_on_route_prices [symmetric])
    qed
  next
    case (Some p)
    then show ?thesis by (simp add: spec_route_fill_def)
  qed
  have 2: "\<exists>m. r\<lparr>price := imputed_price rs r\<rparr> = r\<lparr>price := Some m\<rparr>
             \<and> (case ?fill r of Some p \<Rightarrow> m = p
                 | None \<Rightarrow> spec_median (List.map_filter id ?col) m)" for r
    unfolding col spec_median_iff overall
    by (auto simp: imputed_price_def overall split: option.splits)
  have "list_all2 (spec_route_fill rs) rs ?col"
    using 1 by (simp add: list_all2_map2 list_all2_same)
  moreover have "zip rs ?col = map (\<lambda>r. (r, ?fill r)) rs"
    by (rule zip_map_same)
  then have "list_all2 (\<lambda>(r, q) r'. \<exists>m. r' = r\<lparr>price := Some m\<rparr>
                        \<and> (case q of Some p \<Rightarrow> m = p
                            | None \<Rightarrow> spec_median (List.map_filter id ?col) m))
            (zip rs ?col) (impute_prices rs)"
    using 2 by (simp add: impute_prices_eq list_all2_map1 list_all2_map2 list_all2_same)
  ultimately show ?thesis
    unfolding spec_imputation_def by blast
qed

text \<open>The specification determines the imputed table: it is the one \<open>impute_prices\<close> computes.\<close>

lemma list_all2_functional:
  assumes "list_all2 P xs ys" and "\<And>x y. P x y \<Longrightarrow> y = f x"
  shows "ys = map f xs"
  using assms by (induction rule: list_all2_induct) auto

lemma spec_route_fill_unique:
  assumes "spec_route_fill rs r q"
  shows "q = (case price r of None \<Rightarrow> route_median rs r | Some p \<Rightarrow> Some p)"
proof (cases "price r")
  case None
  show ?thesis
  proof (cases "priced_on_route rs r = []")
    case True
    have "median [] = None"
      by (simp add: median_def)
    with True None assms show ?thesis
      by (simp add: spec_route_fill_def route_median_def priced_on_route_prices [symmetric])
  next
    case False
    with None assms show ?thesis
      by (auto simp: spec_route_fill_def route_median_def priced_on_route_prices [symmetric]
          spec_median_iff)
  qed
next
  case (Some p)
  with assms show ?thesis by (simp add: spec_route_fill_def)
qed

lemma spec_imputation_unique:
  assumes "spec_imputation rs filled"
  shows "filled = impute_prices rs"
proof -
  let ?fill = "\<lambda>r. case price r of None \<Rightarrow> route_median rs r | Some p \<Rightarrow> Some p"
  from assms obtain col where col: "list_all2 (spec_route_fill rs) rs col"
    and fin: "list_all2 (\<lambda>(r, q) r'. \<exists>m. r' = r\<lparr>price := Some m\<rparr>
                        \<and> (case q of Some p \<Rightarrow> m = p
                            | None \<Rightarrow> spec_median (List.map_filter id col) m))
            (zip rs col) filled"
    unfolding spec_imputation_def by blast
  from col have c: "col = map ?fill rs"
    by (rule list_all2_functional) (rule spec_route_fill_unique)
  have m: "List.map_filter id col = prices (fillna (route_median rs) rs)"
    by (simp add: c map_filter_dropna prices_def fillna_prices)
  from fin have "list_all2 (\<lambda>r r'. \<exists>m. r' = r\<lparr>price := Some m\<rparr>
                        \<and> (case ?fill r of Some p \<Rightarrow> m = p
                            | None \<Rightarrow> median (prices (fillna (route_median rs) rs)) = Some m))
            rs filled"
    unfolding m spec_median_iff by (simp add: c zip_map_same list_all2_map1)
  then have "filled = map (\<lambda>r. r\<lparr>price := imputed_price rs r\<rparr>) rs"
    by (rule list_all2_functional) (auto simp: imputed_price_def split: option.splits)
  then show ?thesis
    by (simp add: impute_prices_eq)
qed

lemma clean_impute_priced:
  assumes "\<forall>r \<in> set (rows df). price r \<noteq> None"
  shows "clean_impute df = Inr df"
  using assms by (auto simp: clean_impute_def)

lemma clean_impute_filled:
  assumes "clean_impute df = Inr df1"
  shows "has_column df ''price'' \<longrightarrow> df1 = df\<lparr>rows := impute_prices (rows df)\<rparr>"
proof (cases "has_column df ''price'' \<and> (\<exists>r \<in> set (rows df). price r = None)")
  case True
  with assms show ?thesis
    by (auto simp: clean_impute_def split: if_splits)
next
  case False
  with assms have "df1 = df"
    unfolding clean_impute_def by (metis Inr_inject)
  moreover have "has_column df ''price'' \<longrightarrow> impute_prices (rows df) = rows df"
  proof
    assume "has_column df ''price''"
    with False have "map (\<lambda>r. r\<lparr>price := imputed_price (rows df) r\<rparr>) (rows df) = rows df"
      by (intro map_idI) (auto simp: imputed_price_def split: option.splits)
    then show "impute_prices (rows df) = rows df"
      by (simp add: impute_prices_eq)
  qed
  ultimately show ?thesis by auto
qed

lemma impute_prices_priced:
  assumes "x \<in> set rs" and "price x \<noteq> None"
  shows "\<forall>r \<in> set (impute_prices rs). price r \<noteq> None"
  using imputed_price_defined [OF assms] by (auto simp: impute_prices_eq)

lemma clean_table_filled:
  assumes "has_column df ''price''" and "x \<in> set (rows df)" and "price x \<noteq> None"
    and "clean_table parse df = Inr df'"
  shows "clean_table parse (df\<lparr>rows := impute_prices (rows df)\<rparr>) = Inr df'"
proof -
  from assms(4) obtain df1 where 1: "clean_impute df = Inr df1"
    by (rule clean_table_steps)
  with assms(1) have df1: "df1 = df\<lparr>rows := impute_prices (rows df)\<rparr>"
    using clean_impute_filled by blast
  have "clean_impute df1 = Inr df1"
    unfolding df1 using impute_prices_priced [OF assms(2,3)] by (intro clean_impute_priced) simp
  with 1 assms(4) show ?thesis
    unfolding df1 [symmetric] by (simp add: clean_table_def)
qed

lemma same_listing_trans: "same_listing a b \<Longrightarrow> same_listing b c \<Longrightarrow> same_listing a c"
  by (simp add: same_listing_def)

lemma clean_table_listing:
  assumes "clean_table parse df = Inr df'" and "\<forall>r \<in> set (rows df). price r \<noteq> None"
  shows "\<forall>r' \<in> set (rows df'). \<exists>r \<in> set (rows df). same_listing r r'"
proof
  fix r' assume r': "r' \<in> set (rows df')"
  from assms(1) obtain df1 df3 where s: "clean_impute df = Inr df1"
    "clean_duplicates (clean_dates parse df1) = Inr df3"
    "df' = clean_calendar (clean_outliers df3)"
    by (rule clean_table_steps)
  from s(1) assms(2) have df1: "df1 = df"
    by (simp add: clean_impute_priced)
  from r' obtain r4 where r4: "r4 \<in> set (rows (clean_outliers df3))" "same_listing r4 r'"
    unfolding s(3) using clean_calendar_listing by blast
  then have "r4 \<in> set (rows (clean_dates parse df))"
    using clean_outliers_listing clean_duplicates_listing [OF s(2)] df1 by blast
  then obtain r where "r \<in> set (rows df)" "same_listing r r4"
    using clean_dates_listing by blast
  with r4(2) show "\<exists>r \<in> set (rows df). same_listing r r'"
    using same_listing_trans by blast
qed

text \<open>
  C3, as amended. After \<open>clean_data\<close> on a table with a price column that has at least
  one price, no row of the stored table has a null price, and the stored table is what
  the cleaner makes of the table with its prices imputed: a priced row keeps its price,
  an unpriced row gets the median price of the priced rows sharing its
  (origin, destination) pair, and an unpriced row whose pair has no priced row gets the
  median of the price column as that route-level fill has left it, the filled prices
  counted with the input prices. These prices are determined, and every row of the
  stored table is one of these rows, with its price.
\<close>

theorem clean_data_imputes:
  assumes "raw_data self = Some df" and "has_column df ''price''"
    and "\<exists>r \<in> set (rows df). price r \<noteq> None"
    and "clean_data parse self = Inr self'"
  shows "\<exists>df' filled. processed_data self' = Some df'
    \<and> (\<forall>r' \<in> set (rows df'). price r' \<noteq> None)
    \<and> spec_imputation (rows df) filled
    \<and> (\<forall>other. spec_imputation (rows df) other \<longrightarrow> other = filled)
    \<and> clean_table parse (df\<lparr>rows := filled\<rparr>) = Inr df'
    \<and> (\<forall>r' \<in> set (rows df'). \<exists>r \<in> set filled. same_listing r r')"
proof -
  from assms(3) obtain x where x: "x \<in> set (rows df)" "price x \<noteq> None"
    by blast
  then have "rows df \<noteq> []" by auto
  from clean_data_cleans [OF assms(1) this assms(4)] obtain df'
    where df': "clean_table parse df = Inr df'" "self' = self\<lparr>processed_data := Some df'\<rparr>"
    by blast
  let ?filled = "impute_prices (rows df)"
  have 1: "processed_data self' = Some df'"
    by (simp add: df'(2))
  have 2: "\<forall>r' \<in> set (rows df'). price r' \<noteq> None"
    using clean_table_imputes [OF assms(2) df'(1)] by blast
  have 3: "spec_imputation (rows df) ?filled"
    using x by (rule impute_prices_spec)
  have 4: "clean_table parse (df\<lparr>rows := ?filled\<rparr>) = Inr df'"
    using assms(2) x df'(1) by (rule clean_table_filled)
  have "\<forall>r' \<in> set (rows df'). \<exists>r \<in> set (rows (df\<lparr>rows := ?filled\<rparr>)). same_listing r r'"
    using 4 impute_prices_priced [OF x] by (intro clean_table_listing) simp_all
  then have 5: "\<forall>r' \<in> set (rows df'). \<exists>r \<in> set ?filled. same_listing r r'"
    by simp
  have 6: "\<forall>other. spec_imputation (rows df) other \<longrightarrow> other = ?filled"
    using spec_imputation_unique by blast
  from 1 2 3 4 5 6 show ?thesis by blast
qed

theorem clean_data_imputes_witness:
  "raw_data (new_processor (Some scenario)) = Some scenario
   \<and> has_column scenario ''price''
   \<and> map price (rows scenario) = [Some 150, Some 160, Some 1200, None]
   \<and> clean_data parse_iso (new_processor (Some scenario)) = Inr cleaned_state
   \<and> processed_data cleaned_state = Some scenario_cleaned
   \<and> map price (rows scenario_cleaned) = [Some 150, Some 160, Some 1200, Some 1200]
   \<and> map price (impute_prices (rows scenario)) = [Some 150, Some 160, Some 1200, Some 1200]
   \<and> clean_table parse_iso (scenario\<lparr>rows := impute_prices (rows scenario)\<rparr>) = Inr scenario_cleaned"
proof -
  have 0: "raw_data (new_processor (Some scenario)) = Some scenario"
    by (simp add: new_processor_def)
  have 1: "has_column scenario ''price''" by code_simp
  have 2: "\<exists>r \<in> set (rows scenario). price r \<noteq> None" by code_simp
  have 3: "map price (impute_prices (rows scenario)) = [Some 150, Some 160, Some 1200, Some 1200]"
    by code_simp
  have 4: "map price (rows scenario) = [Some 150, Some 160, Some 1200, None]" by code_simp
  have 5: "map price (rows scenario_cleaned) = [Some 150, Some 160, Some 1200, Some 1200]"
    by code_simp
  have 6: "clean_table parse_iso (scenario\<lparr>rows := impute_prices (rows scenario)\<rparr>) = Inr scenario_cleaned"
    by code_simp
  from clean_data_imputes [OF 0 1 2 scenario_cleaned_state] 0 1 3 4 5 6 scenario_cleaned_state
    cleaned_state_table
  show ?thesis by blast
qed

lemma unpriced_route_clean: "clean_table parse_iso unpriced_route = Inr unpriced_route_cleaned"
  by code_simp

lemma unpriced_route_facts:
  "map price (rows unpriced_route) = [Some 10, None, Some 30, Some 40, None]"
  "priced_on_route (rows unpriced_route) (rows unpriced_route ! 4) = []"
  "median (prices (rows unpriced_route)) = Some 30"
  "map price (rows unpriced_route_cleaned) = [Some 10, Some 10, Some 30, Some 40, Some 20]"
  by code_simp+

text \<open>
  The claim as worded fails on an unpriced row whose route has no priced row. The last
  row of this table is one: the input prices are 10, 30 and 40, with the median 30,
  and the row is stored with the price 20, the median of 10, 10, 30 and 40.
\<close>

theorem clean_data_imputes_counterexample:
  "clean_data parse_iso (new_processor (Some unpriced_route))
     = Inr ((new_processor (Some unpriced_route))\<lparr>processed_data := Some unpriced_route_cleaned\<rparr>)
   \<and> map price (rows unpriced_route) = [Some 10, None, Some 30, Some 40, None]
   \<and> priced_on_route (rows unpriced_route) (rows unpriced_route ! 4) = []
   \<and> median (prices (rows unpriced_route)) = Some 30
   \<and> map price (rows unpriced_route_cleaned) = [Some 10, Some 10, Some 30, Some 40, Some 20]"
proof -
  have "rows unpriced_route \<noteq> []"
    by (simp add: unpriced_route_def)
  then have "clean_data parse_iso (new_processor (Some unpriced_route))
     = Inr ((new_processor (Some unpriced_route))\<lparr>processed_data := Some unpriced_route_cleaned\<rparr>)"
    by (simp add: clean_data_def new_processor_def unpriced_route_clean)
  with unpriced_route_facts show ?thesis by simp
qed

lemma drop_duplicates_unseen:
  "r \<in> set (drop_duplicates key seen rs) \<Longrightarrow> key r \<notin> set seen"
proof (induction rs arbitrary: seen)
  case Nil
  then show ?case by simp
next
  case (Cons a rs)
  show ?case
  proof (cases "key a \<in> set seen")
    case True
    with Cons show ?thesis by simp
  next
    case False
    with Cons.prems have "r = a \<or> r \<in> set (drop_duplicates key (key a # seen) rs)"
      by simp
    then show ?thesis
      using False Cons.IH [of "key a # seen"] by auto
  qed
qed

lemma drop_duplicates_distinct: "distinct (map key (drop_duplicates key seen rs))"
  by (induction rs arbitrary: seen) (auto dest: drop_duplicates_unseen)

lemma drop_duplicates_id:
  "distinct (map key rs) \<Longrightarrow> key ` set rs \<inter> set seen = {} \<Longrightarrow> drop_duplicates key seen rs = rs"
  by (induction rs arbitrary: seen) auto

lemma add_column_set [simp]: "set (add_column c cs) = insert c (set cs)"
  by (auto simp: add_column_def)

lemma add_column_present: "c \<in> set cs \<Longrightarrow> add_column c cs = cs"
  by (simp add: add_column_def)

lemma length_add_column: "length cs \<le> length (add_column c cs)"
  by (simp add: add_column_def)

lemma identity_key_derive [simp]: "identity_key (derive_calendar r) = identity_key r"
  by (simp add: identity_key_def derive_calendar_def Let_def)

lemma derive_calendar_idem [simp]: "derive_calendar (derive_calendar r) = derive_calendar r"
  by (simp add: derive_calendar_def Let_def)

lemma price_derive [simp]: "price (derive_calendar r) = price r"
  by (simp add: derive_calendar_def Let_def)

lemma five_identity_columns:
  assumes "\<forall>c \<in> set identity_columns. c \<in> set cs"
  shows "3 < length cs"
proof -
  have "card (set identity_columns) = 5"
    by (simp add: identity_columns_def)
  moreover from assms have "card (set identity_columns) \<le> card (set cs)"
    by (intro card_mono) auto
  moreover have "card (set cs) \<le> length cs"
    by (rule card_length)
  ultimately show ?thesis by linarith
qed

lemma clean_duplicates_distinct:
  assumes "clean_duplicates df = Inr df'" "\<forall>c \<in> set identity_columns. has_column df c"
  shows "distinct (map identity_key (rows df'))"
proof -
  from assms(2) have "3 < length (columns df)"
    by (intro five_identity_columns) (simp add: has_column_def)
  with assms show ?thesis
    by (auto simp: clean_duplicates_def drop_duplicates_distinct)
qed

lemma clean_duplicates_dtype: "clean_duplicates df = Inr df' \<Longrightarrow> date_parsed df' = date_parsed df"
  by (auto simp: clean_duplicates_def split: if_splits)

lemma clean_outliers_frame [simp]:
  "columns (clean_outliers df) = columns df" "date_parsed (clean_outliers df) = date_parsed df"
  by (simp_all add: clean_outliers_def)

lemma distinct_keys_outliers:
  "distinct (map identity_key (rows df)) \<Longrightarrow> distinct (map identity_key (rows (clean_outliers df)))"
  by (simp add: clean_outliers_def remove_outliers_def distinct_map_filter)

lemma has_column_outliers [simp]: "has_column (clean_outliers df) c = has_column df c"
  by (simp add: has_column_def)

lemma has_column_calendar:
  "c \<notin> set derived_columns \<Longrightarrow> has_column (clean_calendar df) c = has_column df c"
  by (auto simp: clean_calendar_def has_column_def derived_columns_def)

lemma clean_calendar_dtype [simp]: "date_parsed (clean_calendar df) = date_parsed df"
  by (simp add: clean_calendar_def)

lemma clean_table_cleaned:
  assumes "clean_table parse raw = Inr df"
  shows "cleaned df"
proof -
  from assms obtain df1 df3 where s: "clean_impute raw = Inr df1"
    "clean_duplicates (clean_dates parse df1) = Inr df3"
    "df = clean_calendar (clean_outliers df3)"
    by (rule clean_table_steps)
  let ?df4 = "clean_outliers df3"
  have ident: "has_column df c = has_column df3 c" if "c \<notin> set derived_columns" for c
    using that by (simp add: s(3) has_column_calendar)
  have p: "\<forall>r \<in> set (rows df). price r \<noteq> None" if "has_column df ''price''"
  proof
    fix r' assume "r' \<in> set (rows df)"
    then obtain r where "r \<in> set (rows ?df4)" "same_listing r r'"
      unfolding s(3) using clean_calendar_listing by blast
    moreover from that have "has_column df3 ''price''"
      by (simp add: ident derived_columns_def)
    ultimately show "price r' \<noteq> None"
      using clean_outliers_priced by (simp add: same_listing_def)
  qed
  have d: "distinct (map identity_key (rows df))" if "\<forall>c \<in> set identity_columns. has_column df c"
  proof -
    from that have "\<forall>c \<in> set identity_columns. has_column df3 c"
      by (simp add: ident derived_columns_def identity_columns_def)
    then have "\<forall>c \<in> set identity_columns. has_column (clean_dates parse df1) c"
      using clean_duplicates_columns [OF s(2)] by (simp add: has_column_def)
    then have "distinct (map identity_key (rows df3))"
      by (rule clean_duplicates_distinct [OF s(2)])
    then have "distinct (map identity_key (rows ?df4))"
      by (rule distinct_keys_outliers)
    then show ?thesis
      by (simp add: s(3) clean_calendar_def comp_def)
  qed
  have c: "(\<forall>c \<in> set derived_columns. has_column df c) \<and> (\<forall>r \<in> set (rows df). derive_calendar r = r)"
    if "has_column df ''flight_date''" "date_parsed df"
  proof -
    from that have "has_column ?df4 ''flight_date'' \<and> date_parsed ?df4"
      by (simp add: s(3) has_column_calendar derived_columns_def)
    then show ?thesis
      by (auto simp: s(3) clean_calendar_def has_column_def derived_columns_def)
  qed
  from p d c show ?thesis
    unfolding cleaned_def by blast
qed

lemma cleaned_reclean:
  assumes "cleaned df" and "clean_table parse df = Inr df2"
    and "has_column df ''flight_date'' \<longrightarrow> date_parsed df"
  shows "df2 = clean_outliers df"
proof -
  from assms(2) obtain df1 df3 where s: "clean_impute df = Inr df1"
    "clean_duplicates (clean_dates parse df1) = Inr df3"
    "df2 = clean_calendar (clean_outliers df3)"
    by (rule clean_table_steps)
  from assms(1) have "\<not> (has_column df ''price'' \<and> (\<exists>r \<in> set (rows df). price r = None))"
    unfolding cleaned_def by blast
  with s(1) have 1: "df1 = df"
    unfolding clean_impute_def by (metis Inr_inject)
  from assms(3) have 2: "clean_dates parse df = df"
    by (simp add: clean_dates_def to_datetime_def)
  have 3: "df3 = df"
  proof (cases "3 < length (columns df)")
    case True
    with s(2) have all: "\<forall>c \<in> set identity_columns. has_column df c"
      and rs: "df3 = df\<lparr>rows := drop_duplicates identity_key [] (rows df)\<rparr>"
      by (auto simp: 1 2 clean_duplicates_def split: if_splits)
    from all assms(1) have "distinct (map identity_key (rows df))"
      unfolding cleaned_def by blast
    then have "drop_duplicates identity_key [] (rows df) = rows df"
      by (simp add: drop_duplicates_id)
    with rs show ?thesis by simp
  next
    case False
    with s(2) show ?thesis
      by (simp add: 1 2 clean_duplicates_def)
  qed
  show ?thesis
  proof (cases "has_column df ''flight_date'' \<and> date_parsed df")
    case True
    with assms(1) have cols: "\<forall>c \<in> set derived_columns. has_column df c"
      and rws: "\<forall>r \<in> set (rows df). derive_calendar r = r"
      unfolding cleaned_def by blast+
    from rws have "map derive_calendar (rows (clean_outliers df)) = rows (clean_outliers df)"
      by (intro map_idI) (auto dest: clean_outliers_listing)
    moreover from cols have "add_column ''is_weekend''
        (add_column ''month'' (add_column ''day_of_week'' (columns df))) = columns df"
      by (simp add: add_column_present has_column_def derived_columns_def)
    ultimately show ?thesis
      using True by (simp add: s(3) 3 clean_calendar_def has_column_def)
  next
    case False
    then show ?thesis
      by (auto simp: s(3) 3 clean_calendar_def has_column_def)
  qed
qed

lemma clean_table_twice:
  assumes "clean_table parse raw = Inr df" and "clean_table parse df = Inr df2"
    and "has_column df ''flight_date'' \<longrightarrow> date_parsed df"
  shows "df2 = (if has_column df ''price''
                then df\<lparr>rows := filter (in_fence (prices (rows df))) (rows df)\<rparr> else df)"
  using cleaned_reclean [OF clean_table_cleaned [OF assms(1)] assms(2,3)]
  by (simp add: clean_outliers_def remove_outliers_def)

text \<open>
  C2, as amended. A second run of \<open>clean_data\<close>, on the table the first run has stored,
  imputes nothing, removes no duplicate and changes no cell: when it does not raise and
  the first run has parsed the dates (or there is no date column), it stores the cleaned
  table with the rows whose price is within the fence recomputed over the cleaned price
  column, and the cleaned table itself when there is no price column.
\<close>

theorem clean_twice:
  assumes "raw_data self = Some raw" and "rows raw \<noteq> []"
    and "clean_data parse self = Inr self1" and "processed_data self1 = Some df"
    and "has_column df ''flight_date'' \<longrightarrow> date_parsed df"
    and "clean_data parse (load_data self1 (Some df)) = Inr self2"
  shows "processed_data self2 =
           Some (if has_column df ''price''
                 then df\<lparr>rows := filter (in_fence (prices (rows df))) (rows df)\<rparr> else df)"
proof -
  from clean_data_cleans [OF assms(1-3)] assms(4) have first: "clean_table parse raw = Inr df"
    by auto
  show ?thesis
  proof (cases "rows df = []")
    case True
    with assms(6) have "self2 = load_data self1 (Some df)"
      by (simp add: clean_data_def load_data_def)
    with assms(4) True show ?thesis
      by (simp add: load_data_def)
  next
    case False
    have "raw_data (load_data self1 (Some df)) = Some df"
      by (simp add: load_data_def)
    from clean_data_cleans [OF this False assms(6)] obtain df2
      where "clean_table parse df = Inr df2" "processed_data self2 = Some df2"
      by auto
    with clean_table_twice [OF first _ assms(5)] show ?thesis
      by simp
  qed
qed

lemma six_prices_clean: "clean_table parse_iso six_prices = Inr once_cleaned"
  by code_simp

lemma six_prices_reclean: "clean_table parse_iso once_cleaned = Inr twice_cleaned"
  by code_simp

lemma six_prices_rows: "rows six_prices \<noteq> []" "rows once_cleaned \<noteq> []"
  by (simp_all add: six_prices_def once_cleaned_def price_rows_def)

lemma six_prices_runs:
  "clean_data parse_iso (new_processor (Some six_prices)) = Inr once_state"
  "clean_data parse_iso (load_data once_state (Some once_cleaned)) = Inr twice_state"
  by (simp_all add: clean_data_def new_processor_def load_data_def once_state_def twice_state_def
      six_prices_clean six_prices_reclean six_prices_rows)

lemma six_prices_tables:
  "processed_data once_state = Some once_cleaned" "processed_data twice_state = Some twice_cleaned"
  "raw_data (new_processor (Some six_prices)) = Some six_prices"
  by (simp_all add: once_state_def twice_state_def new_processor_def)

lemma six_prices_evaluated:
  "rows once_cleaned = price_rows [10, 10, 10, 10, 12]" "rows twice_cleaned = price_rows [10, 10, 10, 10]"
  "twice_cleaned \<noteq> once_cleaned" "\<not> has_column once_cleaned ''flight_date''"
  "(if has_column once_cleaned ''price''
    then once_cleaned\<lparr>rows := filter (in_fence (prices (rows once_cleaned))) (rows once_cleaned)\<rparr>
    else once_cleaned) = twice_cleaned"
  by code_simp+

text \<open>
  C2 as stated fails: of the prices 10, 10, 10, 10, 12, 20 the first cleaning drops 20
  (fence \<open>[7.75, 13.75]\<close>), and the second one drops 12 (fence \<open>[10, 10]\<close>).
\<close>

theorem clean_twice_counterexample:
  "clean_data parse_iso (new_processor (Some six_prices)) = Inr once_state
   \<and> processed_data once_state = Some once_cleaned
   \<and> rows once_cleaned = price_rows [10, 10, 10, 10, 12]
   \<and> clean_data parse_iso (load_data once_state (Some once_cleaned)) = Inr twice_state
   \<and> processed_data twice_state = Some twice_cleaned
   \<and> rows twice_cleaned = price_rows [10, 10, 10, 10]
   \<and> twice_cleaned \<noteq> once_cleaned"
  by (simp add: six_prices_runs six_prices_tables six_prices_evaluated)

theorem clean_twice_witness:
  "raw_data (new_processor (Some six_prices)) = Some six_prices \<and> rows six_prices \<noteq> []
   \<and> clean_data parse_iso (new_processor (Some six_prices)) = Inr once_state
   \<and> processed_data once_state = Some once_cleaned
   \<and> \<not> has_column once_cleaned ''flight_date''
   \<and> clean_data parse_iso (load_data once_state (Some once_cleaned)) = Inr twice_state
   \<and> processed_data twice_state
       = Some (if has_column once_cleaned ''price''
               then once_cleaned\<lparr>rows := filter (in_fence (prices (rows once_cleaned)))
                                              (rows once_cleaned)\<rparr>
               else once_cleaned)
   \<and> processed_data twice_state = Some twice_cleaned"
  using clean_twice [OF six_prices_tables(3) six_prices_rows(1) six_prices_runs(1)
      six_prices_tables(1) _ six_prices_runs(2)]
    six_prices_tables six_prices_rows six_prices_runs six_prices_evaluated(4)
  by blast

section \<open>Properties of the analysis passes\<close>

lemma mset_sort_desc [simp]: "mset (sort_desc f xs) = mset xs"
  by (simp add: sort_desc_def)

lemma set_sort_desc [simp]: "set (sort_desc f xs) = set xs"
  by (simp add: sort_desc_def)

lemma length_sort_desc [simp]: "length (sort_desc f xs) = length xs"
  by (simp add: sort_desc_def)


lemma distinct_map_sort_desc: "distinct (map g (sort_desc f xs)) = distinct (map g xs)"
proof -
  have "mset (map g (sort_desc f xs)) = mset (map g xs)" by simp
  then show ?thesis by (rule mset_eq_imp_distinct_iff)
qed

lemma sum_list_sort_desc: "sum_list (map g (sort_desc f xs)) = sum_list (map (g :: 'a \<Rightarrow> nat) xs)"
proof -
  have "mset (map g (sort_desc f xs)) = mset (map g xs)" by simp
  then show ?thesis by (metis sum_mset_sum_list)
qed

lemma groupby_keys: "map fst (groupby key rs) = sort (remdups (map key rs))"
  by (simp add: groupby_def comp_def)






lemma pr_record [simp]:
  "pr_route (popular_route_record e) = fst e" "pr_frequency (popular_route_record e) = snd e"
  "pr_is_domestic (popular_route_record e) \<longleftrightarrow>
     domestic_airport (pr_origin (popular_route_record e))
     \<and> domestic_airport (pr_destination (popular_route_record e))"
  by (simp_all add: pr_route_def popular_route_record_def)






lemma set_unique [simp]: "set (unique xs) = set xs"
  by (simp add: unique_def)














lemma cut_bucket: "pd_cut p = Some c \<longleftrightarrow> (\<exists>x. p = Some x \<and> bucket c x)"
  by (cases c) (auto simp: pd_cut_def bucket_def split: option.splits if_splits)

lemma cut_positive: "pd_cut p \<noteq> None \<longleftrightarrow> (\<exists>x. p = Some x \<and> 0 < x)"
  by (auto simp: pd_cut_def split: option.splits)

lemma one_bucket: "0 < x \<Longrightarrow> \<exists>!c. bucket c x"
proof -
  assume "0 < x"
  then obtain c where c: "pd_cut (Some x) = Some c"
    using cut_positive [of "Some x"] by auto
  then have "bucket c x" by (simp add: cut_bucket)
  moreover have "c' = c" if "bucket c' x" for c'
    using that c cut_bucket [of "Some x" c'] by simp
  ultimately show ?thesis by blast
qed

lemma category_count:
  "length (filter (\<lambda>r. price_category r = Some c) (rows (add_price_category df)))
     = length (filter (priced_in c) (rows df))"
proof -
  have "(\<lambda>r. pd_cut (price r) = Some c) = priced_in c"
    by (auto simp: fun_eq_iff cut_bucket priced_in_def split: option.splits)
  then show ?thesis
    by (simp add: add_price_category_def filter_map comp_def)
qed

lemma labels_counts:
  "sum_list (map (\<lambda>c. length (filter (\<lambda>r. pd_cut (price r) = Some c) rs)) labels)
     = length (filter (\<lambda>r. pd_cut (price r) \<noteq> None) rs)"
proof (induction rs)
  case Nil
  show ?case by (simp add: labels_def)
next
  case (Cons r rs)
  show ?case
  proof (cases "pd_cut (price r)")
    case None
    with Cons show ?thesis by (simp add: labels_def)
  next
    case (Some c)
    with Cons show ?thesis by (cases c) (simp_all add: labels_def)
  qed
qed

lemma price_categories_sum:
  "sum_list (map snd (price_categories (rows (add_price_category df))))
     = length (filter positive_price (rows df))"
proof -
  have "(\<lambda>r. pd_cut (price r) \<noteq> None) = positive_price"
    by (auto simp: fun_eq_iff positive_price_def pd_cut_def split: option.splits)
  then show ?thesis
    using labels_counts [of "rows df"]
    by (simp add: price_categories_def sum_list_sort_desc add_price_category_def filter_map comp_def)
qed

lemma price_categories_labels:
  "distinct (map fst (price_categories rs))" "set (map fst (price_categories rs)) = UNIV"
proof -
  have "map fst (map (\<lambda>c. (c, length (filter (\<lambda>r. price_category r = Some c) rs))) labels) = labels"
    by (simp add: comp_def)
  moreover have "distinct labels" by (simp add: labels_def)
  ultimately show "distinct (map fst (price_categories rs))"
    by (simp add: price_categories_def distinct_map_sort_desc del: map_map)
  have "set labels = UNIV"
  proof -
    have "c \<in> set labels" for c by (cases c) (simp_all add: labels_def)
    then show ?thesis by blast
  qed
  then show "set (map fst (price_categories rs)) = UNIV"
    by (simp add: price_categories_def image_image)
qed

text \<open>
  C4, as amended. On a table with a price column, \<open>price_categories\<close> has one count
  for each of the four categories, the count of the rows whose price is in the bucket
  \<open>(0, 200]\<close>, \<open>(200, 500]\<close>, \<open>(500, 1000]\<close> or \<open>(1000, inf)\<close> of the category: open on
  the left, closed on the right. Every positive price is in exactly one bucket, and the
  counts add up to the number of rows with a positive price.
\<close>

theorem price_categories_buckets:
  assumes "processed_data self = Some df" and "has_column df ''price''"
  shows "\<exists>self' cs. analyze_price_distribution self = Inr self'
     \<and> insights self' ''price_categories'' = Some (PriceCategories cs)
     \<and> distinct (map fst cs) \<and> set (map fst cs) = UNIV
     \<and> (\<forall>(c, n) \<in> set cs. n = length (filter (priced_in c) (rows df)))
     \<and> sum_list (map snd cs) = length (filter positive_price (rows df))
     \<and> (\<forall>r \<in> set (rows df). positive_price r \<longrightarrow> (\<exists>!c. priced_in c r))"
proof -
  let ?cs = "price_categories (rows (add_price_category df))"
  let ?self' = "self\<lparr>processed_data := Some (add_price_category df),
                     insights := (insights self)
                       (''price_stats'' \<mapsto> PriceStats (price_stats_of (prices (rows df))),
                        ''price_categories'' \<mapsto> PriceCategories ?cs)\<rparr>"
  from assms have run: "analyze_price_distribution self = Inr ?self'"
    by (simp add: analyze_price_distribution_def Let_def)
  have key: "insights ?self' ''price_categories'' = Some (PriceCategories ?cs)"
    by simp
  have counts: "\<forall>(c, n) \<in> set ?cs. n = length (filter (priced_in c) (rows df))"
    by (auto simp: price_categories_def category_count)
  have one: "\<forall>r \<in> set (rows df). positive_price r \<longrightarrow> (\<exists>!c. priced_in c r)"
    using one_bucket by (auto simp: positive_price_def priced_in_def split: option.splits)
  from run key counts one price_categories_labels [of "rows (add_price_category df)"]
    price_categories_sum [of df]
  show ?thesis by blast
qed

lemma boundary_clean: "clean_table parse_iso boundary_prices = Inr boundary_prices"
  by code_simp

lemma boundary_facts:
  "has_column boundary_prices ''price''" "rows boundary_prices \<noteq> []"
  "prices (rows boundary_prices) = [0, 200]"
  "price_categories (rows (add_price_category boundary_prices)) = boundary_categories"
  "length (filter positive_price (rows boundary_prices)) = 1"
  by code_simp+

lemma boundary_run: "analyze_price_distribution boundary_state = Inr boundary_result"
  by (simp add: analyze_price_distribution_def boundary_state_def boundary_result_def
      boundary_facts Let_def)

lemma boundary_cleaned: "clean_data parse_iso (new_processor (Some boundary_prices)) = Inr boundary_state"
  by (simp add: clean_data_def boundary_clean boundary_state_def new_processor_def boundary_facts)

text \<open>
  C4 as stated fails on the prices 0 and 200: the claim has 0 in Budget and 200 in
  Economy; the code has 0 in no category and 200 in Budget, so that the counts add up
  to 1 for two rows with a price.
\<close>

theorem price_categories_counterexample:
  "clean_data parse_iso (new_processor (Some boundary_prices)) = Inr boundary_state
   \<and> analyze_price_distribution boundary_state = Inr boundary_result
   \<and> insights boundary_result ''price_categories''
       = Some (PriceCategories [(Budget, 1), (Economy, 0), (Premium, 0), (Luxury, 0)])
   \<and> prices (rows boundary_prices) = [0, 200]
   \<and> spec_category 0 = Some Budget \<and> spec_category 200 = Some Economy
   \<and> pd_cut (Some 0) = None \<and> pd_cut (Some 200) = Some Budget"
  by (simp add: boundary_cleaned boundary_run boundary_facts)
    (simp add: boundary_result_def boundary_categories_def spec_category_def pd_cut_def)

theorem price_categories_buckets_witness:
  "processed_data boundary_state = Some boundary_prices \<and> has_column boundary_prices ''price''
   \<and> analyze_price_distribution boundary_state = Inr boundary_result
   \<and> insights boundary_result ''price_categories'' = Some (PriceCategories boundary_categories)
   \<and> sum_list (map snd boundary_categories) = 1
   \<and> length (filter positive_price (rows boundary_prices)) = 1"
proof -
  have 1: "processed_data boundary_state = Some boundary_prices"
    by (simp add: boundary_state_def)
  have 2: "insights boundary_result ''price_categories'' = Some (PriceCategories boundary_categories)"
    by (simp add: boundary_result_def)
  have 3: "sum_list (map snd boundary_categories) = 1"
    by (simp add: boundary_categories_def)
  from price_categories_buckets [OF 1 boundary_facts(1)] 1 2 3 boundary_run boundary_facts
  show ?thesis by blast
qed

lemma two_origins_clean: "clean_table parse_iso two_origins = Inr two_origins_cleaned"
  by code_simp

lemma two_origins_monthly:
  "monthly_prices (rows two_origins_cleaned)
     = [(0, ''AKL'', ''SYD'', 1, Some 100), (1, ''SYD'', ''MEL'', 1, Some 1000),
        (2, ''SYD'', ''MEL'', 6, Some 400)]"
  by code_simp

lemma two_origins_weekend: "weekend_premium_rule two_origins_cleaned = Inr []"
  by code_simp

lemma two_origins_seasonal: "seasonal_variation_rule two_origins_cleaned = Inl IndexError"
  by code_simp

text \<open>The scenario of the specification, a single origin: the record is the one it names.\<close>

lemma seasonal_single_origin:
  "seasonal_variation_rule one_origin_cleaned
     = Inr [SeasonalVariation ''SYD'' ''MEL'' ''January'' ''June'' 2.5]"
  by code_simp

text \<open>
  C5 (one seasonal record for every origin whose ratio exceeds 1.5). The code reads the
  rows of the maximum and the minimum with \<open>route_data.iloc[route_data['price'].idxmax()]\<close>:
  a label of \<open>monthly_prices\<close> used as a position in the rows of one origin. The two
  agree for the first origin only. Here the rows of \<open>SYD\<close> have the labels 1 and 2
  (January at 1000, June at 400, ratio 2.5): position 1 is the June row, position 2 does
  not exist, and the pass raises \<open>IndexError\<close> instead of emitting the record.
\<close>

theorem seasonal_variation_second_origin:
  "clean_data parse_iso (new_processor (Some two_origins)) = Inr two_origins_state
   \<and> analyze_market_opportunities two_origins_state = Inl IndexError"
  by (simp add: clean_data_def two_origins_clean new_processor_def two_origins_state_def
      analyze_market_opportunities_def two_origins_weekend two_origins_seasonal)
    (simp add: two_origins_def)

lemma unchanged_but_refl [simp]: "unchanged_but new r r"
  by (simp add: unchanged_but_def)

lemma table_extended_refl [simp]: "table_extended new df df"
  by (simp add: table_extended_def list_all2_same)

lemma frame_kept_refl [simp]: "frame_kept new keys self self"
  by (simp add: frame_kept_def option.rel_refl)






















section \<open>Properties of \<open>get_insights\<close> and \<open>filter_data\<close>\<close>

text \<open>
  C9. When the insights mapping is not empty, \<open>get_insights\<close> with a category that is
  not one of its keys returns the whole mapping; when the mapping is empty (no analysis
  has run) it returns an empty mapping, whatever the category.
\<close>

theorem get_insights_unknown_category:
  "(insights self \<noteq> Map.empty \<and> insights self c = None
      \<longrightarrow> get_insights self (Some c) = AllInsights (insights self))
   \<and> (insights self = Map.empty \<longrightarrow> get_insights self category = AllInsights Map.empty)"
  by (simp add: get_insights_def)

theorem get_insights_unknown_category_witness:
  "get_insights \<lparr>raw_data = None, processed_data = None,
                 insights = [''peak_travel_periods'' \<mapsto> PeakPeriods [''June'']]\<rparr> (Some ''summary'')
     = AllInsights [''peak_travel_periods'' \<mapsto> PeakPeriods [''June'']]
   \<and> get_insights (new_processor None) (Some ''summary'') = AllInsights Map.empty"
  using get_insights_unknown_category
          [of "\<lparr>raw_data = None, processed_data = None,
                 insights = [''peak_travel_periods'' \<mapsto> PeakPeriods [''June'']]\<rparr>" "''summary''"]
        get_insights_unknown_category [of "new_processor None" "''summary''" "Some ''summary''"]
  by (simp add: new_processor_def)

text \<open>
  C10 (\<open>filter_data\<close> returns the rows of the selection). The function tests for the
  price column before it filters on the price, but reads \<open>is_domestic\<close> without a test
  when just one route type is selected. On a table without that column, here one with
  the columns \<open>origin\<close>, \<open>destination\<close> and \<open>price\<close>, it raises \<open>KeyError\<close> instead of
  returning rows.
\<close>

theorem filter_data_missing_column:
  "\<not> frame_empty six_prices \<and> \<not> has_column six_prices ''is_domestic''
   \<and> filter_data (Some six_prices) [''Domestic''] (0, 5000) = Inl KeyError"
  by (simp add: filter_data_def frame_empty_def has_column_def route_filter_def six_prices_def
      price_rows_def)

text \<open>
  Where the column \<open>is_domestic\<close> is there, or both or neither of the route types are
  selected, the claim holds. \<open>filter_data\<close> leaves the caller's table as it was. On no
  table or an empty one it returns the empty frame. Otherwise it returns the table with
  exactly the rows, in their order, that the route-type selection keeps and, when there
  is a price column, whose price is within the inclusive range (a null price is not).
\<close>

theorem filter_data_rows:
  "filter_data None route_types price_range = Inr (None, empty_frame)
   \<and> (frame_empty df \<longrightarrow> filter_data (Some df) route_types price_range = Inr (Some df, empty_frame))
   \<and> (\<not> frame_empty df
        \<and> (has_column df ''is_domestic''
            \<or> (''Domestic'' \<in> set route_types \<longleftrightarrow> ''International'' \<in> set route_types)) \<longrightarrow>
        filter_data (Some df) route_types price_range =
          Inr (Some df,
               df\<lparr>rows := filter (\<lambda>r. route_selected route_types r
                                      \<and> (has_column df ''price'' \<longrightarrow> in_price_range price_range r))
                                 (rows df)\<rparr>))"
  by (auto simp: filter_data_def route_filter_def route_selected_def has_column_def Let_def
      intro!: filter_cong)

theorem filter_data_rows_witness:
  "\<not> frame_empty scenario \<and> has_column scenario ''is_domestic''
   \<and> filter_data (Some scenario) [''Domestic''] (155, 500) =
       Inr (Some scenario, scenario\<lparr>rows := [listing ''2024-01-06'' ''SYD'' ''MEL'' (Some 160)]\<rparr>)
   \<and> filter_data (Some scenario) [] (155, 5000) =
       Inr (Some scenario, scenario\<lparr>rows := [listing ''2024-01-06'' ''SYD'' ''MEL'' (Some 160),
                                               listing ''2024-01-07'' ''SYD'' ''LAX'' (Some 1200)]\<rparr>)
   \<and> frame_empty empty_frame
   \<and> filter_data (Some empty_frame) [''Domestic''] (155, 500) = Inr (Some empty_frame, empty_frame)"
  using filter_data_rows [of "[''Domestic'']" "(155, 500)" scenario]
        filter_data_rows [of "[]" "(155, 5000)" scenario]
        filter_data_rows [of "[''Domestic'']" "(155, 500)" empty_frame]
  by (simp add: frame_empty_def has_column_def scenario_def empty_frame_def route_selected_def
      in_price_range_def listing_def listing_columns_def domestic_airport_def AUSTRALIAN_CITIES_def)

end
